theory Spec2Isabelle
  imports Complex_Main "HOL-Library.AList" "HOL-Library.Sublist"
begin

section \<open>Python values\<close>

text \<open>
  The values that flow through \<^verbatim>\<open>enhanced_chrome_client.py\<close>: CDP event messages,
  captured records, response bodies parsed by \<^verbatim>\<open>json.loads\<close> and assessment results are
  all JSON-shaped Python objects. A dictionary is an association list in insertion order
  with string keys; a finite float is the rational number it denotes (NaN and the
  infinities are outside the model); a string is a list of code points below 256.
\<close>

datatype pyval =
    PNone
  | PBool bool
  | PInt int
  | PFloat rat
  | PStr string
  | PList "pyval list"
  | PDict "(string \<times> pyval) list"

text \<open>The exception classes the module can meet; \<open>DriverError\<close> stands for whatever a
  collaborator (the driver, the parent class) raises.\<close>

datatype error =
    AttributeError
  | TypeError
  | IndexError
  | KeyError
  | ValueError
  | OverflowError
  | JSONDecodeError
  | DriverError

definition ebind :: "error + 'a \<Rightarrow> ('a \<Rightarrow> error + 'b) \<Rightarrow> error + 'b" where
  "ebind m f = (case m of Inl e \<Rightarrow> Inl e | Inr v \<Rightarrow> f v)"

text \<open>Truth value testing (\<^verbatim>\<open>if x:\<close>).\<close>

fun truthy :: "pyval \<Rightarrow> bool" where
  "truthy PNone = False"
| "truthy (PBool b) = b"
| "truthy (PInt i) = (i \<noteq> 0)"
| "truthy (PFloat q) = (q \<noteq> 0)"
| "truthy (PStr s) = (s \<noteq> [])"
| "truthy (PList xs) = (xs \<noteq> [])"
| "truthy (PDict d) = (d \<noteq> [])"

text \<open>\<^verbatim>\<open>x.get(key, default)\<close>: only a dict has the method; a key that is present
  with value \<^verbatim>\<open>None\<close> yields \<^verbatim>\<open>None\<close>, not the default.\<close>

fun py_get :: "pyval \<Rightarrow> string \<Rightarrow> pyval \<Rightarrow> error + pyval" where
  "py_get (PDict d) k dflt = Inr (case map_of d k of Some v \<Rightarrow> v | None \<Rightarrow> dflt)"
| "py_get _ k dflt = Inl AttributeError"

section \<open>Client state and collaborators\<close>

text \<open>
  The driver and the parent class \<^verbatim>\<open>ChromeClient\<close> are collaborators outside the module.
  Every call to one of them is a \<open>call\<close>; what it returns, and which CDP events the
  driver's thread hands to the two handlers while the call is in flight, is decided by an
  arbitrary function of the calls made so far.
\<close>

datatype call =
    GetChromeDriver
  | ExecuteCdpCmd string pyval
  | AddCdpListener string
  | DriverGet string
  | ExecuteScript
  | Sleep nat
  | AssessApi string

datatype event = RequestWillBeSent pyval | ResponseReceived pyval

record reply =
  ret :: "error + pyval"
  events :: "event list"
  driver_after :: bool

record client =
  driver :: bool
  network_monitoring :: bool
  network_requests :: "pyval list"
  network_responses :: "pyval list"
  max_network_entries :: nat
  history :: "call list"

text \<open>\<open>driver\<close> is the truth value of the parent's attribute \<^verbatim>\<open>self.driver\<close>;
  \<open>history\<close> is not an attribute of the class: it lists the calls made to the
  collaborators, oldest first.\<close>

record env =
  collaborator :: "call list \<Rightarrow> call \<Rightarrow> reply"
  json_loads :: "string \<Rightarrow> pyval option"
  float_of_int :: "int \<Rightarrow> rat option"
  float_of_str :: "string \<Rightarrow> rat option"

text \<open>\<^verbatim>\<open>__init__\<close>, for a parent that has no driver yet.\<close>

definition init :: client where
  "init = \<lparr>driver = False, network_monitoring = False, network_requests = [],
     network_responses = [], max_network_entries = 1000, history = []\<rparr>"

section \<open>Event handlers\<close>

text \<open>\<^verbatim>\<open>params.get('request', {}).get('url')\<close> and its siblings.\<close>

definition get_nested :: "pyval \<Rightarrow> string \<Rightarrow> string \<Rightarrow> pyval \<Rightarrow> error + pyval" where
  "get_nested p sub k dflt = ebind (py_get p sub (PDict [])) (\<lambda>r. py_get r k dflt)"

text \<open>\<^verbatim>\<open>message.get(sub, {}).get(k, dflt) if message.get(sub) else message.get(k, dflt)\<close>.\<close>

definition get_direct :: "pyval \<Rightarrow> string \<Rightarrow> string \<Rightarrow> pyval \<Rightarrow> error + pyval" where
  "get_direct m sub k dflt =
     ebind (py_get m sub PNone) (\<lambda>c.
       if truthy c then get_nested m sub k dflt else py_get m k dflt)"

text \<open>\<^verbatim>\<open>isinstance(message, dict) and 'params' in message\<close>.\<close>

fun has_params :: "pyval \<Rightarrow> bool" where
  "has_params (PDict d) = (map_of d ''params'' \<noteq> None)"
| "has_params _ = False"

text \<open>\<^verbatim>\<open>message['params']\<close>, evaluated only where \<open>has_params\<close> holds.\<close>

fun params_of :: "pyval \<Rightarrow> pyval" where
  "params_of (PDict d) = (case map_of d ''params'' of Some p \<Rightarrow> p | None \<Rightarrow> PNone)"
| "params_of _ = PNone"

definition request_data :: "pyval \<Rightarrow> error + pyval" where
  "request_data message =
     (if has_params message then
        (let params = params_of message in
         ebind (py_get params ''requestId'' PNone) (\<lambda>rid.
         ebind (get_nested params ''request'' ''url'' PNone) (\<lambda>url.
         ebind (get_nested params ''request'' ''method'' PNone) (\<lambda>meth.
         ebind (get_nested params ''request'' ''headers'' (PDict [])) (\<lambda>hdrs.
         ebind (py_get params ''timestamp'' PNone) (\<lambda>ts.
         ebind (py_get params ''type'' PNone) (\<lambda>ty.
         ebind (get_nested params ''request'' ''postData'' PNone) (\<lambda>pd.
         Inr (PDict [(''requestId'', rid), (''url'', url), (''method'', meth),
                     (''headers'', hdrs), (''timestamp'', ts), (''type'', ty),
                     (''postData'', pd)])))))))))
      else
        ebind (py_get message ''requestId'' PNone) (\<lambda>rid.
        ebind (get_direct message ''request'' ''url'' PNone) (\<lambda>url.
        ebind (get_direct message ''request'' ''method'' PNone) (\<lambda>meth.
        ebind (get_direct message ''request'' ''headers'' (PDict [])) (\<lambda>hdrs.
        ebind (py_get message ''timestamp'' PNone) (\<lambda>ts.
        ebind (py_get message ''type'' PNone) (\<lambda>ty.
        ebind (get_direct message ''request'' ''postData'' PNone) (\<lambda>pd.
        Inr (PDict [(''requestId'', rid), (''url'', url), (''method'', meth),
                    (''headers'', hdrs), (''timestamp'', ts), (''type'', ty),
                    (''postData'', pd)])))))))))"

definition response_data :: "pyval \<Rightarrow> error + pyval" where
  "response_data message =
     (if has_params message then
        (let params = params_of message in
         ebind (py_get params ''requestId'' PNone) (\<lambda>rid.
         ebind (get_nested params ''response'' ''url'' PNone) (\<lambda>url.
         ebind (get_nested params ''response'' ''status'' PNone) (\<lambda>status.
         ebind (get_nested params ''response'' ''statusText'' PNone) (\<lambda>stext.
         ebind (get_nested params ''response'' ''headers'' (PDict [])) (\<lambda>hdrs.
         ebind (get_nested params ''response'' ''mimeType'' PNone) (\<lambda>mime.
         ebind (py_get params ''timestamp'' PNone) (\<lambda>ts.
         ebind (py_get params ''type'' PNone) (\<lambda>ty.
         Inr (PDict [(''requestId'', rid), (''url'', url), (''status'', status),
                     (''statusText'', stext), (''headers'', hdrs), (''mimeType'', mime),
                     (''timestamp'', ts), (''type'', ty)]))))))))))
      else
        ebind (py_get message ''requestId'' PNone) (\<lambda>rid.
        ebind (get_direct message ''response'' ''url'' PNone) (\<lambda>url.
        ebind (get_direct message ''response'' ''status'' PNone) (\<lambda>status.
        ebind (get_direct message ''response'' ''statusText'' PNone) (\<lambda>stext.
        ebind (get_direct message ''response'' ''headers'' (PDict [])) (\<lambda>hdrs.
        ebind (get_direct message ''response'' ''mimeType'' PNone) (\<lambda>mime.
        ebind (py_get message ''timestamp'' PNone) (\<lambda>ts.
        ebind (py_get message ''type'' PNone) (\<lambda>ty.
        Inr (PDict [(''requestId'', rid), (''url'', url), (''status'', status),
                    (''statusText'', stext), (''headers'', hdrs), (''mimeType'', mime),
                    (''timestamp'', ts), (''type'', ty)]))))))))))"

text \<open>\<^verbatim>\<open>if len(buf) >= cap: buf.pop(0)\<close>; \<^verbatim>\<open>pop\<close> on an empty list raises.\<close>

definition pop_oldest :: "nat \<Rightarrow> pyval list \<Rightarrow> error + pyval list" where
  "pop_oldest cap buf =
     (if length buf \<ge> cap then
        (case buf of [] \<Rightarrow> Inl IndexError | _ # rest \<Rightarrow> Inr rest)
      else Inr buf)"

text \<open>
  The body of a handler under its \<^verbatim>\<open>try\<close>: evict, then project, then append. The
  list is mutated in place, so an exception raised by the projection leaves the eviction
  done; \<^verbatim>\<open>except Exception\<close> only logs.
\<close>

definition capture :: "nat \<Rightarrow> error + pyval \<Rightarrow> pyval list \<Rightarrow> pyval list" where
  "capture cap projected buf =
     (case pop_oldest cap buf of
        Inl e \<Rightarrow> buf
      | Inr kept \<Rightarrow> (case projected of Inl e \<Rightarrow> kept | Inr r \<Rightarrow> kept @ [r]))"

definition network_request_handler :: "pyval \<Rightarrow> client \<Rightarrow> client" where
  "network_request_handler message st =
     st\<lparr>network_requests :=
          capture (max_network_entries st) (request_data message) (network_requests st)\<rparr>"

definition network_response_handler :: "pyval \<Rightarrow> client \<Rightarrow> client" where
  "network_response_handler message st =
     st\<lparr>network_responses :=
          capture (max_network_entries st) (response_data message) (network_responses st)\<rparr>"

fun handle_event :: "event \<Rightarrow> client \<Rightarrow> client" where
  "handle_event (RequestWillBeSent m) st = network_request_handler m st"
| "handle_event (ResponseReceived m) st = network_response_handler m st"

text \<open>A sequence of events, handled one after the other in arrival order.\<close>

fun deliver :: "event list \<Rightarrow> client \<Rightarrow> client" where
  "deliver [] st = st"
| "deliver (e # es) st = deliver es (handle_event e st)"

text \<open>The records a sequence of events inserts, per buffer, in arrival order.\<close>

fun inserted_requests :: "event list \<Rightarrow> pyval list" where
  "inserted_requests [] = []"
| "inserted_requests (RequestWillBeSent m # es) =
     (case request_data m of Inl e \<Rightarrow> inserted_requests es | Inr r \<Rightarrow> r # inserted_requests es)"
| "inserted_requests (ResponseReceived m # es) = inserted_requests es"

fun inserted_responses :: "event list \<Rightarrow> pyval list" where
  "inserted_responses [] = []"
| "inserted_responses (ResponseReceived m # es) =
     (case response_data m of Inl e \<Rightarrow> inserted_responses es | Inr r \<Rightarrow> r # inserted_responses es)"
| "inserted_responses (RequestWillBeSent m # es) = inserted_responses es"

text \<open>An event is well formed when its projection does not raise.\<close>

fun well_formed :: "event \<Rightarrow> bool" where
  "well_formed (RequestWillBeSent m) = (case request_data m of Inl e \<Rightarrow> False | Inr r \<Rightarrow> True)"
| "well_formed (ResponseReceived m) = (case response_data m of Inl e \<Rightarrow> False | Inr r \<Rightarrow> True)"

text \<open>The last \<open>n\<close> elements of a list.\<close>

definition last_n :: "nat \<Rightarrow> 'a list \<Rightarrow> 'a list" where
  "last_n n xs = drop (length xs - n) xs"

section \<open>Strings and built-ins\<close>

text \<open>\<^verbatim>\<open>str.lower()\<close> on code points below 256: the ASCII capitals and the Latin-1
  capitals (all of \<open>0xC0..0xDE\<close> but the multiplication sign) move up by 32.\<close>

definition lower_char :: "char \<Rightarrow> char" where
  "lower_char c =
     (let n = (of_char c :: nat)
      in if (65 \<le> n \<and> n \<le> 90) \<or> (192 \<le> n \<and> n \<le> 222 \<and> n \<noteq> 215)
         then char_of (n + 32) else c)"

definition py_lower :: "string \<Rightarrow> string" where
  "py_lower s = map lower_char s"

text \<open>\<^verbatim>\<open>x.lower()\<close> on any value: only a string has the method.\<close>

fun lower_of :: "pyval \<Rightarrow> error + string" where
  "lower_of (PStr s) = Inr (py_lower s)"
| "lower_of _ = Inl AttributeError"

text \<open>\<^verbatim>\<open>needle in hay\<close> for two strings: a contiguous occurrence.\<close>

fun contains :: "string \<Rightarrow> string \<Rightarrow> bool" where
  "contains needle [] = (needle = [])"
| "contains needle (c # cs) = (prefix needle (c # cs) \<or> contains needle cs)"

text \<open>\<^verbatim>\<open>'literal' in x\<close>: substring of a string, element of a list, key of a dict;
  any other right operand is not iterable.\<close>

fun str_in :: "string \<Rightarrow> pyval \<Rightarrow> error + bool" where
  "str_in s (PStr t) = Inr (contains s t)"
| "str_in s (PList xs) = Inr (PStr s \<in> set xs)"
| "str_in s (PDict d) = Inr (map_of d s \<noteq> None)"
| "str_in s _ = Inl TypeError"

text \<open>\<^verbatim>\<open>x['key']\<close> with a string key.\<close>

fun py_item :: "pyval \<Rightarrow> string \<Rightarrow> error + pyval" where
  "py_item (PDict d) k = (case map_of d k of Some v \<Rightarrow> Inr v | None \<Rightarrow> Inl KeyError)"
| "py_item _ k = Inl TypeError"

text \<open>\<^verbatim>\<open>d.get(key)\<close> on a value known to be a dict.\<close>

definition dict_get :: "(string \<times> pyval) list \<Rightarrow> string \<Rightarrow> pyval" where
  "dict_get d k = (case map_of d k of Some v \<Rightarrow> v | None \<Rightarrow> PNone)"

text \<open>Whitespace (\<^verbatim>\<open>\s\<close> in a str pattern, and what \<^verbatim>\<open>int\<close> strips), below 256.\<close>

definition is_space :: "char \<Rightarrow> bool" where
  "is_space c = ((of_char c :: nat) \<in> {9, 10, 11, 12, 13, 28, 29, 30, 31, 32, 133, 160})"

definition is_digit :: "char \<Rightarrow> bool" where
  "is_digit c = (48 \<le> (of_char c :: nat) \<and> (of_char c :: nat) \<le> 57)"

text \<open>Decimal digits with single underscores between them, as \<^verbatim>\<open>int(str)\<close> accepts.\<close>

fun parse_digits :: "string \<Rightarrow> int \<Rightarrow> bool \<Rightarrow> int option" where
  "parse_digits [] acc after_digit = (if after_digit then Some acc else None)"
| "parse_digits (c # cs) acc after_digit =
     (if is_digit c then parse_digits cs (10 * acc + (int (of_char c) - 48)) True
      else if c = CHR ''_'' \<and> after_digit then parse_digits cs acc False
      else None)"

definition strip :: "string \<Rightarrow> string" where
  "strip s = rev (dropWhile is_space (rev (dropWhile is_space s)))"

text \<open>\<^verbatim>\<open>int(s)\<close> for a string, base 10 (the interpreter's limit on the number of digits
  is not modelled).\<close>

definition int_of_str :: "string \<Rightarrow> int option" where
  "int_of_str s =
     (case strip s of
        [] \<Rightarrow> None
      | c # cs \<Rightarrow>
          if c = CHR ''-'' then map_option uminus (parse_digits cs 0 False)
          else if c = CHR ''+'' then parse_digits cs 0 False
          else parse_digits (c # cs) 0 False)"

text \<open>\<^verbatim>\<open>int(x)\<close>: a float is truncated towards zero.\<close>

fun py_int :: "pyval \<Rightarrow> error + pyval" where
  "py_int (PInt i) = Inr (PInt i)"
| "py_int (PBool b) = Inr (PInt (if b then 1 else 0))"
| "py_int (PFloat q) = Inr (PInt (if 0 \<le> q then \<lfloor>q\<rfloor> else \<lceil>q\<rceil>))"
| "py_int (PStr s) = (case int_of_str s of Some i \<Rightarrow> Inr (PInt i) | None \<Rightarrow> Inl ValueError)"
| "py_int _ = Inl TypeError"

text \<open>\<^verbatim>\<open>float(x)\<close>: the identity on a float; rounding an integer and parsing a string
  belong to the interpreter and are parameters of the model.\<close>

fun py_float :: "env \<Rightarrow> pyval \<Rightarrow> error + pyval" where
  "py_float env (PFloat q) = Inr (PFloat q)"
| "py_float env (PBool b) = Inr (PFloat (if b then 1 else 0))"
| "py_float env (PInt i) =
     (case float_of_int env i of Some q \<Rightarrow> Inr (PFloat q) | None \<Rightarrow> Inl OverflowError)"
| "py_float env (PStr s) =
     (case float_of_str env s of Some q \<Rightarrow> Inr (PFloat q) | None \<Rightarrow> Inl ValueError)"
| "py_float env _ = Inl TypeError"

text \<open>\<^verbatim>\<open>json.loads(body)\<close>: the parser is the library's; a body that is not text is a
  \<^verbatim>\<open>TypeError\<close>.\<close>

fun py_json_loads :: "env \<Rightarrow> pyval \<Rightarrow> error + pyval" where
  "py_json_loads env (PStr s) =
     (case json_loads env s of Some v \<Rightarrow> Inr v | None \<Rightarrow> Inl JSONDecodeError)"
| "py_json_loads env _ = Inl TypeError"

text \<open>Equality \<^verbatim>\<open>==\<close>: numbers (booleans included) compare by value, dicts
  regardless of the order of their keys.\<close>

fun num_of :: "pyval \<Rightarrow> rat option" where
  "num_of (PBool b) = Some (if b then 1 else 0)"
| "num_of (PInt i) = Some (of_int i)"
| "num_of (PFloat q) = Some q"
| "num_of _ = None"

function (sequential) py_eq :: "pyval \<Rightarrow> pyval \<Rightarrow> bool" where
  "py_eq (PList xs) (PList ys) = list_all2 py_eq xs ys"
| "py_eq (PDict d) (PDict e) =
     (set (map fst d) = set (map fst e) \<and>
      list_all (\<lambda>k. py_eq (dict_get d k) (dict_get e k)) (map fst d))"
| "py_eq (PStr s) (PStr t) = (s = t)"
| "py_eq PNone PNone = True"
| "py_eq a b = (case (num_of a, num_of b) of (Some x, Some y) \<Rightarrow> x = y | _ \<Rightarrow> False)"
  by pat_completeness auto
termination
proof (relation "measure (\<lambda>(a, b). size a)", goal_cases)
  case 1
  show ?case by simp
next
  case (2 xs ys x y)
  then have "size x < Suc (size_list size xs)"
    by (induction xs) auto
  then show ?case by simp
next
  case (3 d e k)
  have "size (dict_get d k) < Suc (size_list (size_prod (\<lambda>_. 0) size) d)"
    by (induction d) (auto simp: dict_get_def)
  then show ?case by simp
qed

section \<open>Monitoring controller and buffer access\<close>

text \<open>The calls that belong to the parent class; they may create or drop the driver.\<close>

fun parent_call :: "call \<Rightarrow> bool" where
  "parent_call GetChromeDriver = True"
| "parent_call (AssessApi url) = True"
| "parent_call _ = False"

text \<open>One call to a collaborator: it is logged, the events that arrive meanwhile go
  through the handlers, and the caller gets the returned value or the exception.\<close>

definition perform :: "env \<Rightarrow> call \<Rightarrow> client \<Rightarrow> (error + pyval) \<times> client" where
  "perform env c st =
     (let r = collaborator env (history st) c;
          st1 = st\<lparr>history := history st @ [c],
                   driver := (if parent_call c then driver_after r else driver st)\<rparr>
      in (ret r, deliver (events r) st1))"

definition start_network_monitoring :: "env \<Rightarrow> client \<Rightarrow> bool \<times> client" where
  "start_network_monitoring env st =
     (if network_monitoring st then (True, st)
      else
        (case perform env GetChromeDriver st of
           (Inl e, st1) \<Rightarrow> (False, st1)
         | (Inr drv, st1) \<Rightarrow>
        (case perform env (ExecuteCdpCmd ''Network.enable'' (PDict [])) st1 of
           (Inl e, st2) \<Rightarrow> (False, st2)
         | (Inr r2, st2) \<Rightarrow>
        (case perform env (AddCdpListener ''Network.requestWillBeSent'') st2 of
           (Inl e, st3) \<Rightarrow> (False, st3)
         | (Inr r3, st3) \<Rightarrow>
        (case perform env (AddCdpListener ''Network.responseReceived'') st3 of
           (Inl e, st4) \<Rightarrow> (False, st4)
         | (Inr r4, st4) \<Rightarrow> (True, st4\<lparr>network_monitoring := True\<rparr>))))))"

definition stop_network_monitoring :: "env \<Rightarrow> client \<Rightarrow> bool \<times> client" where
  "stop_network_monitoring env st =
     (if \<not> network_monitoring st then (True, st)
      else if driver st then
        (case perform env (ExecuteCdpCmd ''Network.disable'' (PDict [])) st of
           (Inl e, st1) \<Rightarrow> (False, st1)
         | (Inr r, st1) \<Rightarrow> (True, st1\<lparr>network_monitoring := False\<rparr>))
      else (True, st\<lparr>network_monitoring := False\<rparr>))"

text \<open>The list comprehension of \<^verbatim>\<open>get_network_responses\<close>:
  \<^verbatim>\<open>url_filter.lower() in resp.get('url', '').lower()\<close> for each record in turn.\<close>

fun filter_responses :: "string \<Rightarrow> pyval list \<Rightarrow> error + pyval list" where
  "filter_responses url_filter [] = Inr []"
| "filter_responses url_filter (resp # rest) =
     ebind (py_get resp ''url'' (PStr [])) (\<lambda>url.
     ebind (lower_of url) (\<lambda>low.
     ebind (filter_responses url_filter rest) (\<lambda>kept.
       Inr (if contains (py_lower url_filter) low then resp # kept else kept))))"

definition get_network_responses :: "string option \<Rightarrow> client \<Rightarrow> error + pyval list" where
  "get_network_responses url_filter st =
     (case url_filter of
        None \<Rightarrow> Inr (network_responses st)
      | Some f \<Rightarrow>
          if f \<noteq> [] then filter_responses f (network_responses st)
          else Inr (network_responses st))"

definition get_response_body :: "env \<Rightarrow> pyval \<Rightarrow> client \<Rightarrow> pyval \<times> client" where
  "get_response_body env request_id st =
     (if \<not> network_monitoring st then (PNone, st)
      else if driver st then
        (case perform env (ExecuteCdpCmd ''Network.getResponseBody''
                            (PDict [(''requestId'', request_id)])) st of
           (Inl e, st1) \<Rightarrow> (PNone, st1)
         | (Inr result, st1) \<Rightarrow>
             (case py_get result ''body'' PNone of
                Inl e \<Rightarrow> (PNone, st1)
              | Inr body \<Rightarrow> (body, st1)))
      else (PNone, st))"

definition clear_network_data :: "client \<Rightarrow> client" where
  "clear_network_data st = st\<lparr>network_requests := [], network_responses := []\<rparr>"

definition assess_api :: "env \<Rightarrow> string \<Rightarrow> client \<Rightarrow> (error + pyval) \<times> client" where
  "assess_api env api_url st = perform env (AssessApi api_url) st"

section \<open>Payload extractors\<close>

text \<open>\<^verbatim>\<open>re.search(r'"description","content":"([^"]*)"', body)\<close>: the leftmost position
  where the literal stands and a closing quote follows; group 1 is the text up to that
  quote.\<close>

definition desc_key :: string where
  \<open>desc_key = ''"description","content":"''\<close>

fun desc_search :: "string \<Rightarrow> string option" where
  "desc_search [] = None"
| "desc_search (c # cs) =
     (if prefix desc_key (c # cs) then
        (let rest = drop (length desc_key) (c # cs)
         in if CHR 0x22 \<in> set rest then Some (takeWhile (\<lambda>x. x \<noteq> CHR 0x22) rest)
            else desc_search cs)
      else desc_search cs)"

text \<open>\<^verbatim>\<open>re.search(r'rapidapi\.com/([^/]+)/', url)\<close>.\<close>

fun provider_search :: "string \<Rightarrow> string option" where
  "provider_search [] = None"
| "provider_search (c # cs) =
     (if prefix ''rapidapi.com/'' (c # cs) then
        (let rest = drop (length ''rapidapi.com/'') (c # cs);
             seg = takeWhile (\<lambda>x. x \<noteq> CHR ''/'') rest
         in if seg \<noteq> [] \<and> dropWhile (\<lambda>x. x \<noteq> CHR ''/'') rest \<noteq> [] then Some seg
            else provider_search cs)
      else provider_search cs)"

text \<open>\<^verbatim>\<open>re.search(key + r'\s*(\[.*?\])', body, re.DOTALL)\<close> for a literal \<open>key\<close>:
  group 1 runs from the bracket to the first closing bracket after it.\<close>

fun array_search :: "string \<Rightarrow> string \<Rightarrow> string option" where
  "array_search key [] = None"
| "array_search key (c # cs) =
     (if prefix key (c # cs) then
        (case dropWhile is_space (drop (length key) (c # cs)) of
           [] \<Rightarrow> array_search key cs
         | b # after \<Rightarrow>
             if b = CHR ''['' \<and> CHR '']'' \<in> set after
             then Some (b # takeWhile (\<lambda>x. x \<noteq> CHR '']'') after @ '']'')
             else array_search key cs)
      else array_search key cs)"

definition plans_key :: string where
  \<open>plans_key = ''"plans":''\<close>

definition endpoints_key :: string where
  \<open>endpoints_key = ''"endpoints":''\<close>

text \<open>
  The inner \<^verbatim>\<open>try\<close> of \<^verbatim>\<open>_extract_rsc_data\<close> for one record with a truthy body:
  its four blocks (description, provider, pricing, endpoints) in turn.
  \<^verbatim>\<open>enhanced_data\<close> is updated in place, so what was stored before an exception stays
  (a body that is not text fails the first search, a URL that is not text fails after the
  description); the handler of the inner \<^verbatim>\<open>try\<close> continues with the next record.
\<close>

definition rsc_description ::
  "string \<Rightarrow> (string \<times> pyval) list \<Rightarrow> (string \<times> pyval) list" where
  "rsc_description b acc =
     (case desc_search b of
        Some d \<Rightarrow> AList.update ''description'' (PStr d) acc
      | None \<Rightarrow> acc)"

definition rsc_provider ::
  "string \<Rightarrow> (string \<times> pyval) list \<Rightarrow> (string \<times> pyval) list" where
  "rsc_provider u acc =
     (if contains ''rapidapi.com'' u then
        (case provider_search u of
           Some p \<Rightarrow> AList.update ''provider'' (PStr p) acc
         | None \<Rightarrow> acc)
      else acc)"

definition rsc_pricing ::
  "env \<Rightarrow> string \<Rightarrow> string \<Rightarrow> (string \<times> pyval) list \<Rightarrow> (string \<times> pyval) list" where
  "rsc_pricing env u b acc =
     (if contains ''pricing'' (py_lower u) then
        (case array_search plans_key b of
           Some txt \<Rightarrow>
             (case json_loads env txt of
                Some plans \<Rightarrow> AList.update ''pricing'' (PDict [(''tiers'', plans)]) acc
              | None \<Rightarrow> acc)
         | None \<Rightarrow> acc)
      else acc)"

definition rsc_endpoints ::
  "env \<Rightarrow> string \<Rightarrow> string \<Rightarrow> (string \<times> pyval) list \<Rightarrow> (string \<times> pyval) list" where
  "rsc_endpoints env u b acc =
     (if contains ''endpoint'' (py_lower u) \<or> contains ''playground'' (py_lower u) then
        (case array_search endpoints_key b of
           Some txt \<Rightarrow>
             (case json_loads env txt of
                Some eps \<Rightarrow> AList.update ''endpoints'' eps acc
              | None \<Rightarrow> acc)
         | None \<Rightarrow> acc)
      else acc)"

definition rsc_fields ::
  "env \<Rightarrow> pyval \<Rightarrow> pyval \<Rightarrow> (string \<times> pyval) list \<Rightarrow> (string \<times> pyval) list" where
  "rsc_fields env url body acc =
     (case body of
        PStr b \<Rightarrow>
          (let acc1 = rsc_description b acc
           in case url of
                PStr u \<Rightarrow> rsc_endpoints env u b (rsc_pricing env u b (rsc_provider u acc1))
              | _ \<Rightarrow> acc1)
      | _ \<Rightarrow> acc)"

text \<open>The loop of \<^verbatim>\<open>_extract_rsc_data\<close>; an exception outside the inner \<^verbatim>\<open>try\<close>
  ends the loop and the data gathered so far is returned.\<close>

fun extract_rsc_loop ::
  "env \<Rightarrow> pyval list \<Rightarrow> (string \<times> pyval) list \<Rightarrow> client \<Rightarrow> (string \<times> pyval) list \<times> client" where
  "extract_rsc_loop env [] acc st = (acc, st)"
| "extract_rsc_loop env (response # rest) acc st =
     (case py_get response ''requestId'' PNone of
        Inl e \<Rightarrow> (acc, st)
      | Inr request_id \<Rightarrow>
     (case py_get response ''url'' (PStr []) of
        Inl e \<Rightarrow> (acc, st)
      | Inr url \<Rightarrow>
          if truthy request_id then
            (case str_in ''/api/'' url of
               Inl e \<Rightarrow> (acc, st)
             | Inr found \<Rightarrow>
                 if found then
                   (case get_response_body env request_id st of
                      (body, st1) \<Rightarrow>
                        if truthy body
                        then extract_rsc_loop env rest (rsc_fields env url body acc) st1
                        else extract_rsc_loop env rest acc st1)
                 else extract_rsc_loop env rest acc st)
          else extract_rsc_loop env rest acc st))"

definition extract_rsc_data ::
  "env \<Rightarrow> pyval list \<Rightarrow> client \<Rightarrow> (string \<times> pyval) list \<times> client" where
  "extract_rsc_data env responses st = extract_rsc_loop env responses [] st"

text \<open>The API-info object of a GraphQL \<^verbatim>\<open>data\<close> value: the \<^verbatim>\<open>if\<close>/\<^verbatim>\<open>elif\<close> chain
  over the four paths; \<^verbatim>\<open>None\<close> when no path is present.\<close>

definition select_api_info :: "pyval \<Rightarrow> error + pyval" where
  "select_api_info data =
     ebind (str_in ''api'' data) (\<lambda>has_api.
       if has_api then py_item data ''api''
       else ebind (str_in ''getApi'' data) (\<lambda>has_get.
         if has_get then py_item data ''getApi''
         else ebind (str_in ''apiDetails'' data) (\<lambda>has_details.
           if has_details then py_item data ''apiDetails''
           else ebind (str_in ''marketplace'' data) (\<lambda>has_market.
             if has_market then
               ebind (py_item data ''marketplace'') (\<lambda>market.
               ebind (str_in ''api'' market) (\<lambda>has_inner.
                 if has_inner then py_item market ''api'' else Inr PNone))
             else Inr PNone))))"

text \<open>\<^verbatim>\<open>if api_info.get(k): enhanced_data[k] = api_info[k]\<close>.\<close>

definition copy_truthy ::
  "(string \<times> pyval) list \<Rightarrow> string \<Rightarrow> (string \<times> pyval) list \<Rightarrow> (string \<times> pyval) list" where
  "copy_truthy info k acc =
     (if truthy (dict_get info k) then AList.update k (dict_get info k) acc else acc)"

text \<open>The pricing and endpoints chains of the GraphQL extractor.\<close>

definition pricing_of ::
  "(string \<times> pyval) list \<Rightarrow> (string \<times> pyval) list \<Rightarrow> (string \<times> pyval) list" where
  "pricing_of info acc =
     (if map_of info ''pricing'' \<noteq> None \<and> truthy (dict_get info ''pricing'')
      then AList.update ''pricing'' (dict_get info ''pricing'') acc
      else if map_of info ''pricingTiers'' \<noteq> None
      then AList.update ''pricing'' (PDict [(''tiers'', dict_get info ''pricingTiers'')]) acc
      else if map_of info ''plans'' \<noteq> None
      then AList.update ''pricing'' (PDict [(''tiers'', dict_get info ''plans'')]) acc
      else acc)"

definition endpoints_of ::
  "(string \<times> pyval) list \<Rightarrow> (string \<times> pyval) list \<Rightarrow> (string \<times> pyval) list" where
  "endpoints_of info acc =
     (if map_of info ''endpoints'' \<noteq> None \<and> truthy (dict_get info ''endpoints'')
      then AList.update ''endpoints'' (dict_get info ''endpoints'') acc
      else if map_of info ''methods'' \<noteq> None
      then AList.update ''endpoints'' (dict_get info ''methods'') acc
      else if map_of info ''operations'' \<noteq> None
      then AList.update ''endpoints'' (dict_get info ''operations'') acc
      else acc)"

text \<open>
  The block under \<^verbatim>\<open>if api_info:\<close>. It ends the loop either by \<^verbatim>\<open>break\<close> or by an
  exception (\<^verbatim>\<open>.get\<close> on a value that is not a dict, \<^verbatim>\<open>float\<close> or \<^verbatim>\<open>int\<close> on a value
  they reject); in both cases what was stored up to that point is returned.
\<close>

definition graphql_fields ::
  "env \<Rightarrow> pyval \<Rightarrow> (string \<times> pyval) list \<Rightarrow> (string \<times> pyval) list" where
  "graphql_fields env api_info acc =
     (case api_info of
        PDict info \<Rightarrow>
          (let acc1 = copy_truthy info ''name'' acc;
               acc2 = copy_truthy info ''description'' acc1;
               acc3 = (if truthy (dict_get info ''provider'')
                       then AList.update ''provider'' (dict_get info ''provider'') acc2
                       else if truthy (dict_get info ''providerName'')
                       then AList.update ''provider'' (dict_get info ''providerName'') acc2
                       else acc2)
           in case (if dict_get info ''rating'' \<noteq> PNone
                    then ebind (py_float env (dict_get info ''rating''))
                           (\<lambda>r. Inr (AList.update ''rating'' r acc3))
                    else Inr acc3) of
                Inl e \<Rightarrow> acc3
              | Inr acc4 \<Rightarrow>
                  (case (if dict_get info ''reviewCount'' \<noteq> PNone
                         then ebind (py_int (dict_get info ''reviewCount''))
                                (\<lambda>n. Inr (AList.update ''reviewCount'' n acc4))
                         else Inr acc4) of
                     Inl e \<Rightarrow> acc4
                   | Inr acc5 \<Rightarrow>
                       endpoints_of info
                         (pricing_of info
                           (copy_truthy info ''documentationUrl''
                             (copy_truthy info ''serviceLevel''
                               (copy_truthy info ''popularity'' acc5))))))
      | _ \<Rightarrow> acc)"

text \<open>One parsed body: the data gathered, and whether the loop ends here.\<close>

definition graphql_record ::
  "env \<Rightarrow> pyval \<Rightarrow> (string \<times> pyval) list \<Rightarrow> (string \<times> pyval) list \<times> bool" where
  "graphql_record env parsed acc =
     (case str_in ''data'' parsed of
        Inl e \<Rightarrow> (acc, True)
      | Inr has_data \<Rightarrow>
          if has_data then
            (case ebind (py_item parsed ''data'') select_api_info of
               Inl e \<Rightarrow> (acc, True)
             | Inr api_info \<Rightarrow>
                 if truthy api_info then (graphql_fields env api_info acc, True)
                 else (acc, False))
          else (acc, False))"

fun extract_graphql_loop ::
  "env \<Rightarrow> pyval list \<Rightarrow> (string \<times> pyval) list \<Rightarrow> client \<Rightarrow> (string \<times> pyval) list \<times> client" where
  "extract_graphql_loop env [] acc st = (acc, st)"
| "extract_graphql_loop env (response # rest) acc st =
     (case py_get response ''requestId'' PNone of
        Inl e \<Rightarrow> (acc, st)
      | Inr request_id \<Rightarrow>
          if truthy request_id then
            (case get_response_body env request_id st of
               (body, st1) \<Rightarrow>
                 if truthy body then
                   (case py_json_loads env body of
                      Inl e \<Rightarrow>
                        if e = JSONDecodeError then extract_graphql_loop env rest acc st1
                        else (acc, st1)
                    | Inr parsed \<Rightarrow>
                        (case graphql_record env parsed acc of
                           (acc1, fin) \<Rightarrow>
                             if fin then (acc1, st1)
                             else extract_graphql_loop env rest acc1 st1))
                 else extract_graphql_loop env rest acc st1)
          else extract_graphql_loop env rest acc st)"

definition extract_graphql_data ::
  "env \<Rightarrow> pyval list \<Rightarrow> client \<Rightarrow> (string \<times> pyval) list \<times> client" where
  "extract_graphql_data env responses st = extract_graphql_loop env responses [] st"

section \<open>Assessment orchestrator\<close>

text \<open>\<^verbatim>\<open>d.update(other)\<close>: every item of \<open>other\<close> is stored in turn.\<close>

definition py_update ::
  "(string \<times> pyval) list \<Rightarrow> (string \<times> pyval) list \<Rightarrow> (string \<times> pyval) list" where
  "py_update d other = fold (\<lambda>(k, v) acc. AList.update k v acc) other d"

text \<open>\<^verbatim>\<open>enhanced_data\<close> as built from the two extractor outputs: each is applied only
  when it is not empty, the structured-payload one first.\<close>

definition combine ::
  "(string \<times> pyval) list \<Rightarrow> (string \<times> pyval) list \<Rightarrow> (string \<times> pyval) list" where
  "combine rsc_data graphql_data =
     (let enhanced = (if rsc_data \<noteq> [] then py_update [] rsc_data else [])
      in if graphql_data \<noteq> [] then py_update enhanced graphql_data else enhanced)"

text \<open>The merge loop over \<^verbatim>\<open>enhanced_data.items()\<close> for a result that is a dict.\<close>

definition merge_step ::
  "string \<times> pyval \<Rightarrow> (string \<times> pyval) list \<Rightarrow> (string \<times> pyval) list" where
  "merge_step item result =
     (case item of (key, val) \<Rightarrow>
        if truthy val \<and> \<not> py_eq val (dict_get result key)
        then AList.update key val result else result)"

definition merge_enhanced ::
  "(string \<times> pyval) list \<Rightarrow> (string \<times> pyval) list \<Rightarrow> (string \<times> pyval) list" where
  "merge_enhanced enhanced result = fold merge_step enhanced result"

text \<open>The same loop for whatever \<^verbatim>\<open>assess_api\<close> returned: \<^verbatim>\<open>result.get\<close> is reached,
  and raises on a value that is not a dict, at the first truthy extracted value.\<close>

fun merge_into :: "(string \<times> pyval) list \<Rightarrow> pyval \<Rightarrow> error + pyval" where
  "merge_into enhanced (PDict result) = Inr (PDict (merge_enhanced enhanced result))"
| "merge_into enhanced other =
     (if list_ex (\<lambda>item. truthy (snd item)) enhanced then Inl AttributeError else Inr other)"

text \<open>The body of the \<^verbatim>\<open>try\<close> of \<^verbatim>\<open>assess_api_enhanced\<close>: the value returned, or the
  exception that reaches the handler, with the state at that point.\<close>

definition enhanced_attempt :: "env \<Rightarrow> string \<Rightarrow> client \<Rightarrow> (error + pyval) \<times> client" where
  "enhanced_attempt env api_url st =
     (case start_network_monitoring env (clear_network_data st) of
        (started, st1) \<Rightarrow>
          if \<not> started then assess_api env api_url st1
          else
            (case perform env GetChromeDriver st1 of
               (Inl e, st2) \<Rightarrow> (Inl e, st2)
             | (Inr drv, st2) \<Rightarrow>
            (case perform env (DriverGet api_url) st2 of
               (Inl e, st3) \<Rightarrow> (Inl e, st3)
             | (Inr r3, st3) \<Rightarrow>
            (case perform env (Sleep 3) st3 of
               (r4, st4) \<Rightarrow>
            (case perform env ExecuteScript st4 of
               (Inl e, st5) \<Rightarrow> (Inl e, st5)
             | (Inr r5, st5) \<Rightarrow>
            (case perform env (Sleep 5) st5 of
               (r6, st6) \<Rightarrow>
            (case assess_api env api_url st6 of
               (Inl e, st7) \<Rightarrow> (Inl e, st7)
             | (Inr result, st7) \<Rightarrow>
            (case get_network_responses (Some ''/api/'') st7 of
               Inl e \<Rightarrow> (Inl e, st7)
             | Inr api_responses \<Rightarrow>
            (case get_network_responses (Some ''graphql'') st7 of
               Inl e \<Rightarrow> (Inl e, st7)
             | Inr graphql_responses \<Rightarrow>
            (case (if api_responses \<noteq> [] then extract_rsc_data env api_responses st7
                   else ([], st7)) of
               (rsc_data, st8) \<Rightarrow>
            (case (if graphql_responses \<noteq> [] then extract_graphql_data env graphql_responses st8
                   else ([], st8)) of
               (graphql_data, st9) \<Rightarrow>
            (case merge_into (combine rsc_data graphql_data) result of
               Inl e \<Rightarrow> (Inl e, st9)
             | Inr merged \<Rightarrow>
                 (Inr merged, snd (stop_network_monitoring env st9))))))))))))))"

text \<open>\<^verbatim>\<open>assess_api_enhanced\<close>: on any exception, stop monitoring and return what the static
  assessment returns (or let its exception out).\<close>

definition assess_api_enhanced :: "env \<Rightarrow> string \<Rightarrow> client \<Rightarrow> (error + pyval) \<times> client" where
  "assess_api_enhanced env api_url st =
     (case enhanced_attempt env api_url st of
        (Inr res, st1) \<Rightarrow> (Inr res, st1)
      | (Inl e, st1) \<Rightarrow> assess_api env api_url (snd (stop_network_monitoring env st1)))"

section \<open>Example inputs\<close>

text \<open>A collaborator that always succeeds, returns \<^verbatim>\<open>None\<close> and delivers no event.\<close>

definition quiet_reply :: reply where
  "quiet_reply = \<lparr>ret = Inr PNone, events = [], driver_after = True\<rparr>"

definition quiet_env :: env where
  "quiet_env = \<lparr>collaborator = (\<lambda>h c. quiet_reply), json_loads = (\<lambda>s. None),
     float_of_int = (\<lambda>i. Some (of_int i)), float_of_str = (\<lambda>s. None)\<rparr>"

text \<open>A client with a driver whose monitoring is active.\<close>

definition monitoring_client :: client where
  "monitoring_client = init\<lparr>driver := True, network_monitoring := True\<rparr>"

text \<open>Two CDP events in the standard format, and one that is not a message at all.\<close>

definition request_event :: "string \<Rightarrow> event" where
  "request_event rid =
     RequestWillBeSent (PDict [(''params'', PDict [(''requestId'', PStr rid),
       (''request'', PDict [(''url'', PStr ''https://rapidapi.com/graphql''),
                            (''method'', PStr ''POST'')])])])"

definition response_event :: "string \<Rightarrow> string \<Rightarrow> event" where
  "response_event rid url =
     ResponseReceived (PDict [(''params'', PDict [(''requestId'', PStr rid),
       (''response'', PDict [(''url'', PStr url), (''status'', PInt 200)])])])"

definition small_client :: client where
  "small_client = init\<lparr>max_network_entries := 2\<rparr>"

definition demo_events :: "event list" where
  "demo_events = [request_event ''1'', response_event ''1'' ''https://rapidapi.com/graphql'',
     request_event ''2'', request_event ''3'']"

definition full_client :: client where
  "full_client = small_client\<lparr>network_requests := [PStr ''r1'', PStr ''r2''],
     network_responses := [PStr ''s1'', PStr ''s2'']\<rparr>"

text \<open>A driver whose \<^verbatim>\<open>Network.disable\<close> command raises.\<close>

definition disable_cmd :: call where
  "disable_cmd = ExecuteCdpCmd ''Network.disable'' (PDict [])"

definition failing_disable_env :: env where
  "failing_disable_env = quiet_env\<lparr>collaborator := (\<lambda>h c.
     if c = disable_cmd then quiet_reply\<lparr>ret := Inl DriverError\<rparr> else quiet_reply)\<rparr>"

text \<open>A parent class that cannot create a driver but can assess statically.\<close>

definition static_result :: pyval where
  "static_result = PDict [(''name'', PStr ''Weather''), (''description'', PStr ''static'')]"

definition no_driver_env :: env where
  "no_driver_env = quiet_env\<lparr>collaborator := (\<lambda>h c.
     case c of
       GetChromeDriver \<Rightarrow> \<lparr>ret = Inl DriverError, events = [], driver_after = False\<rparr>
     | AssessApi url \<Rightarrow> \<lparr>ret = Inr static_result, events = [], driver_after = False\<rparr>
     | _ \<Rightarrow> quiet_reply)\<rparr>"

text \<open>A \<^verbatim>\<open>responseReceived\<close> message whose response object carries no URL.\<close>

definition null_url_message :: pyval where
  "null_url_message =
     PDict [(''params'', PDict [(''requestId'', PStr ''1''),
       (''response'', PDict [(''status'', PInt 200)])])]"

text \<open>The GraphQL body of the weather example, what \<^verbatim>\<open>json.loads\<close> makes of it, and a driver
  that returns it as the body of every response.\<close>

definition weather_body :: string where
  \<open>weather_body = ''{"data":{"api":{"name":"Weather API","rating":4.5,"reviewCount":"120"}}}''\<close>

definition weather_json :: pyval where
  "weather_json =
     PDict [(''data'', PDict [(''api'', PDict [(''name'', PStr ''Weather API''),
       (''rating'', PFloat (9 / 2)), (''reviewCount'', PStr ''120'')])])]"

definition body_reply :: "pyval \<Rightarrow> reply" where
  "body_reply b = \<lparr>ret = Inr (PDict [(''body'', b)]), events = [], driver_after = True\<rparr>"

definition weather_env :: env where
  "weather_env = quiet_env\<lparr>collaborator := (\<lambda>h c. body_reply (PStr weather_body)),
     json_loads := (\<lambda>s. if s = weather_body then Some weather_json else None)\<rparr>"

definition graphql_record_of :: "pyval \<Rightarrow> pyval" where
  "graphql_record_of rid =
     PDict [(''requestId'', rid), (''url'', PStr ''https://rapidapi.com/graphql'')]"

text \<open>The URL text of a captured record, where \<^verbatim>\<open>resp.get('url', '').lower()\<close> is defined:
  the record is a dict and its \<^verbatim>\<open>url\<close> is absent or a string.\<close>

fun url_text :: "pyval \<Rightarrow> string option" where
  "url_text (PDict d) =
     (case map_of d ''url'' of None \<Rightarrow> Some [] | Some (PStr u) \<Rightarrow> Some u | Some _ \<Rightarrow> None)"
| "url_text _ = None"

text \<open>A structured payload that carries the description of the weather example, the
  record of the response it came with, and a driver that returns it as every body.\<close>

definition rsc_body :: string where
  \<open>rsc_body = ''1:["$","meta","2",{"name":"description","content":"Free weather data"}]''\<close>

definition rsc_env :: env where
  "rsc_env = quiet_env\<lparr>collaborator := (\<lambda>h c. body_reply (PStr rsc_body))\<rparr>"

definition rsc_record_of :: "pyval \<Rightarrow> pyval" where
  "rsc_record_of rid =
     PDict [(''requestId'', rid), (''url'', PStr ''https://rapidapi.com/acme/api/weather'')]"

text \<open>A GraphQL envelope whose API-info object sits on the fourth path.\<close>

definition market_json :: pyval where
  "market_json =
     PDict [(''data'', PDict [(''marketplace'',
       PDict [(''api'', PDict [(''name'', PStr ''Weather API'')])])])]"

definition market_env :: env where
  "market_env = quiet_env\<lparr>collaborator := (\<lambda>h c. body_reply (PStr ''{...}'')),
     json_loads := (\<lambda>s. Some market_json)\<rparr>"

text \<open>
  A session in which both extractors produce \<^verbatim>\<open>endpoints\<close>: the page load delivers two
  responses, a structured payload listing one endpoint and a GraphQL answer whose API-info
  object has an empty \<^verbatim>\<open>methods\<close> list; the static assessment knows one endpoint.
\<close>

definition endpoints_body :: string where
  \<open>endpoints_body = ''0:{"endpoints": ["a"]}''\<close>

definition methods_body :: string where
  \<open>methods_body = ''{"data":{"api":{"name":"Weather API","methods":[]}}}''\<close>

definition methods_json :: pyval where
  "methods_json =
     PDict [(''data'', PDict [(''api'', PDict [(''name'', PStr ''Weather API''),
       (''methods'', PList [])])])]"

definition static_endpoints :: pyval where
  "static_endpoints = PDict [(''endpoints'', PList [PStr ''old''])]"

definition body_request :: "string \<Rightarrow> call" where
  "body_request rid = ExecuteCdpCmd ''Network.getResponseBody'' (PDict [(''requestId'', PStr rid)])"

definition session_env :: env where
  \<open>session_env = quiet_env\<lparr>
     collaborator := (\<lambda>h c.
       if c = body_request ''1'' then body_reply (PStr endpoints_body)
       else if c = body_request ''2'' then body_reply (PStr methods_body)
       else case c of
         DriverGet url \<Rightarrow> quiet_reply\<lparr>events :=
           [response_event ''1'' ''https://rapidapi.com/acme/api/weather/endpoints'',
            response_event ''2'' ''https://rapidapi.com/graphql'']\<rparr>
       | AssessApi url \<Rightarrow> quiet_reply\<lparr>ret := Inr static_endpoints\<rparr>
       | _ \<Rightarrow> quiet_reply),
     json_loads := (\<lambda>s. if s = methods_body then Some methods_json
                         else if s = ''["a"]'' then Some (PList [PStr ''a'']) else None)\<rparr>\<close>


definition endpoints_record :: pyval where
  "endpoints_record = PDict [(''requestId'', PStr ''1''),
     (''url'', PStr ''https://rapidapi.com/acme/api/weather/endpoints'')]"

section \<open>The capture buffers\<close>

lemma last_n_all: "length xs \<le> n \<Longrightarrow> last_n n xs = xs"
  by (simp add: last_n_def)

lemma last_n_append: "last_n n (last_n n xs @ ys) = last_n n (xs @ ys)"
proof (cases "length xs \<le> n")
  case True
  then show ?thesis by (simp add: last_n_def)
next
  case False
  define k where "k = length xs - n"
  have len: "length xs = k + n" using False by (simp add: k_def)
  show ?thesis unfolding last_n_def by (simp add: len add.commute)
qed

lemma length_last_n: "length (last_n n xs) \<le> n"
  by (simp add: last_n_def)

lemma capture_inserted:
  "length buf \<le> cap \<Longrightarrow> capture cap (Inr r) buf = last_n cap (buf @ [r])"
  by (cases buf) (auto simp: capture_def pop_oldest_def last_n_def)

lemma capture_length: "length buf \<le> cap \<Longrightarrow> length (capture cap p buf) \<le> cap"
  by (cases buf; cases p) (auto simp: capture_def pop_oldest_def)

lemma capture_failed:
  "0 < cap \<Longrightarrow> cap \<le> length buf \<Longrightarrow> capture cap (Inl e) buf = tl buf"
  by (cases buf) (auto simp: capture_def pop_oldest_def)

lemma handle_event_fields [simp]:
  "max_network_entries (handle_event e st) = max_network_entries st"
  "driver (handle_event e st) = driver st"
  "network_monitoring (handle_event e st) = network_monitoring st"
  "history (handle_event e st) = history st"
  by (cases e; simp add: network_request_handler_def network_response_handler_def)+

lemma deliver_fields [simp]:
  "max_network_entries (deliver es st) = max_network_entries st"
  "driver (deliver es st) = driver st"
  "network_monitoring (deliver es st) = network_monitoring st"
  "history (deliver es st) = history st"
  by (induction es arbitrary: st; simp)+

lemma deliver_length_requests:
  "length (network_requests st) \<le> max_network_entries st \<Longrightarrow>
   length (network_requests (deliver es st)) \<le> max_network_entries st"
proof (induction es arbitrary: st)
  case Nil
  then show ?case by simp
next
  case (Cons e es)
  have "length (network_requests (handle_event e st)) \<le> max_network_entries (handle_event e st)"
    using Cons.prems
    by (cases e) (simp_all add: network_request_handler_def network_response_handler_def capture_length)
  from Cons.IH [OF this] show ?case by simp
qed

lemma deliver_length_responses:
  "length (network_responses st) \<le> max_network_entries st \<Longrightarrow>
   length (network_responses (deliver es st)) \<le> max_network_entries st"
proof (induction es arbitrary: st)
  case Nil
  then show ?case by simp
next
  case (Cons e es)
  have "length (network_responses (handle_event e st)) \<le> max_network_entries (handle_event e st)"
    using Cons.prems
    by (cases e) (simp_all add: network_request_handler_def network_response_handler_def capture_length)
  from Cons.IH [OF this] show ?case by simp
qed

lemma deliver_requests_recent:
  "length (network_requests st) \<le> max_network_entries st \<Longrightarrow> list_all well_formed es \<Longrightarrow>
   network_requests (deliver es st) =
     last_n (max_network_entries st) (network_requests st @ inserted_requests es)"
proof (induction es arbitrary: st)
  case Nil
  then show ?case by (simp add: last_n_all)
next
  case (Cons e es)
  show ?case
  proof (cases e)
    case (RequestWillBeSent m)
    with Cons.prems obtain r where r: "request_data m = Inr r"
      by (auto split: sum.splits)
    let ?st = "network_request_handler m st"
    have buf: "network_requests ?st = last_n (max_network_entries st) (network_requests st @ [r])"
      using Cons.prems(1) r by (simp add: network_request_handler_def capture_inserted)
    have cap: "max_network_entries ?st = max_network_entries st"
      by (simp add: network_request_handler_def)
    have "length (network_requests ?st) \<le> max_network_entries ?st"
      by (simp add: buf cap length_last_n)
    from Cons.IH [OF this] Cons.prems(2)
    have "network_requests (deliver es ?st) =
            last_n (max_network_entries st) (network_requests ?st @ inserted_requests es)"
      by (simp add: cap)
    also have "\<dots> = last_n (max_network_entries st) (network_requests st @ r # inserted_requests es)"
      unfolding buf
      using last_n_append [of "max_network_entries st" "network_requests st @ [r]" "inserted_requests es"]
      by simp
    finally show ?thesis using RequestWillBeSent r by simp
  next
    case (ResponseReceived m)
    let ?st = "network_response_handler m st"
    have "network_requests ?st = network_requests st" "max_network_entries ?st = max_network_entries st"
      by (simp_all add: network_response_handler_def)
    with Cons.IH [of ?st] Cons.prems ResponseReceived show ?thesis by simp
  qed
qed

lemma deliver_responses_recent:
  "length (network_responses st) \<le> max_network_entries st \<Longrightarrow> list_all well_formed es \<Longrightarrow>
   network_responses (deliver es st) =
     last_n (max_network_entries st) (network_responses st @ inserted_responses es)"
proof (induction es arbitrary: st)
  case Nil
  then show ?case by (simp add: last_n_all)
next
  case (Cons e es)
  show ?case
  proof (cases e)
    case (ResponseReceived m)
    with Cons.prems obtain r where r: "response_data m = Inr r"
      by (auto split: sum.splits)
    let ?st = "network_response_handler m st"
    have buf: "network_responses ?st = last_n (max_network_entries st) (network_responses st @ [r])"
      using Cons.prems(1) r by (simp add: network_response_handler_def capture_inserted)
    have cap: "max_network_entries ?st = max_network_entries st"
      by (simp add: network_response_handler_def)
    have "length (network_responses ?st) \<le> max_network_entries ?st"
      by (simp add: buf cap length_last_n)
    from Cons.IH [OF this] Cons.prems(2)
    have "network_responses (deliver es ?st) =
            last_n (max_network_entries st) (network_responses ?st @ inserted_responses es)"
      by (simp add: cap)
    also have "\<dots> = last_n (max_network_entries st) (network_responses st @ r # inserted_responses es)"
      unfolding buf
      using last_n_append [of "max_network_entries st" "network_responses st @ [r]" "inserted_responses es"]
      by simp
    finally show ?thesis using ResponseReceived r by simp
  next
    case (RequestWillBeSent m)
    let ?st = "network_request_handler m st"
    have "network_responses ?st = network_responses st" "max_network_entries ?st = max_network_entries st"
      by (simp_all add: network_request_handler_def)
    with Cons.IH [of ?st] Cons.prems RequestWillBeSent show ?thesis by simp
  qed
qed

lemma capture_suffix:
  "suffix buf xs \<Longrightarrow>
   suffix (capture cap p buf) (xs @ (case p of Inl e \<Rightarrow> [] | Inr r \<Rightarrow> [r]))"
  by (cases buf; cases p) (auto simp: capture_def pop_oldest_def suffix_def)

lemma deliver_requests_suffix:
  "suffix (network_requests st) xs \<Longrightarrow>
   suffix (network_requests (deliver es st)) (xs @ inserted_requests es)"
proof (induction es arbitrary: st xs)
  case Nil
  then show ?case by simp
next
  case (Cons e es)
  show ?case
  proof (cases e)
    case (RequestWillBeSent m)
    let ?new = "case request_data m of Inl e \<Rightarrow> [] | Inr r \<Rightarrow> [r]"
    have "suffix (network_requests (handle_event e st)) (xs @ ?new)"
      using Cons.prems RequestWillBeSent
      by (simp add: network_request_handler_def capture_suffix)
    from Cons.IH [OF this] show ?thesis
      using RequestWillBeSent by (simp split: sum.splits)
  next
    case (ResponseReceived m)
    have "suffix (network_requests (handle_event e st)) xs"
      using Cons.prems ResponseReceived by (simp add: network_response_handler_def)
    from Cons.IH [OF this] show ?thesis
      using ResponseReceived by simp
  qed
qed

lemma deliver_responses_suffix:
  "suffix (network_responses st) xs \<Longrightarrow>
   suffix (network_responses (deliver es st)) (xs @ inserted_responses es)"
proof (induction es arbitrary: st xs)
  case Nil
  then show ?case by simp
next
  case (Cons e es)
  show ?case
  proof (cases e)
    case (ResponseReceived m)
    let ?new = "case response_data m of Inl e \<Rightarrow> [] | Inr r \<Rightarrow> [r]"
    have "suffix (network_responses (handle_event e st)) (xs @ ?new)"
      using Cons.prems ResponseReceived
      by (simp add: network_response_handler_def capture_suffix)
    from Cons.IH [OF this] show ?thesis
      using ResponseReceived by (simp split: sum.splits)
  next
    case (RequestWillBeSent m)
    have "suffix (network_responses (handle_event e st)) xs"
      using Cons.prems RequestWillBeSent by (simp add: network_request_handler_def)
    from Cons.IH [OF this] show ?thesis
      using RequestWillBeSent by simp
  qed
qed

text \<open>
  C1. From buffers within the cap, after any sequence of events has gone through the
  handlers both buffers are still within the cap; and when every event of the sequence is
  recorded (its projection does not raise), each buffer holds exactly the last
  \<open>max_network_entries\<close> records inserted into it, in arrival order. Whatever the events,
  what a buffer retains is a suffix of what was inserted: the most recent records, in
  arrival order.
\<close>

theorem buffers_bounded_most_recent:
  assumes "length (network_requests st) \<le> max_network_entries st"
    and "length (network_responses st) \<le> max_network_entries st"
  shows "length (network_requests (deliver es st)) \<le> max_network_entries st \<and>
         length (network_responses (deliver es st)) \<le> max_network_entries st \<and>
         suffix (network_requests (deliver es st)) (network_requests st @ inserted_requests es) \<and>
         suffix (network_responses (deliver es st)) (network_responses st @ inserted_responses es) \<and>
         (list_all well_formed es \<longrightarrow>
            network_requests (deliver es st) =
              last_n (max_network_entries st) (network_requests st @ inserted_requests es) \<and>
            network_responses (deliver es st) =
              last_n (max_network_entries st) (network_responses st @ inserted_responses es))"
  using assms
  by (simp add: deliver_length_requests deliver_length_responses
        deliver_requests_recent deliver_responses_recent
        deliver_requests_suffix deliver_responses_suffix)

lemma demo_events_well_formed: "list_all well_formed demo_events"
  by (simp add: demo_events_def request_event_def response_event_def request_data_def
        response_data_def get_nested_def ebind_def)

theorem buffers_bounded_most_recent_witness:
  "length (network_requests small_client) \<le> max_network_entries small_client \<and>
   length (network_responses small_client) \<le> max_network_entries small_client \<and>
   list_all well_formed demo_events \<and>
   length (inserted_requests demo_events) = 3 \<and>
   length (network_requests (deliver demo_events small_client)) \<le> 2 \<and>
   network_requests (deliver demo_events small_client) = last_n 2 (inserted_requests demo_events) \<and>
   network_responses (deliver demo_events small_client) = inserted_responses demo_events"
proof -
  have a: "length (network_requests small_client) \<le> max_network_entries small_client"
    by (simp add: small_client_def init_def)
  have b: "length (network_responses small_client) \<le> max_network_entries small_client"
    by (simp add: small_client_def init_def)
  have n: "length (inserted_requests demo_events) = 3" "length (inserted_responses demo_events) = 1"
    by (simp_all add: demo_events_def request_event_def response_event_def request_data_def
        response_data_def get_nested_def ebind_def)
  have c: "max_network_entries small_client = 2" "network_requests small_client = []"
    "network_responses small_client = []"
    by (simp_all add: small_client_def init_def)
  from buffers_bounded_most_recent [OF a b, of demo_events] demo_events_well_formed
  show ?thesis using a b n by (simp add: c last_n_def)
qed

text \<open>
  C10. With a positive cap and a buffer at (or above) the cap, a handler whose projection
  raises has already removed the oldest record: the buffer is the old one without its
  first entry, one entry shorter, and the event is not appended. Both handlers.
\<close>

theorem failed_projection_still_evicts:
  assumes "0 < max_network_entries st"
  shows "(max_network_entries st \<le> length (network_requests st) \<and> request_data message = Inl e \<longrightarrow>
            network_requests (network_request_handler message st) = tl (network_requests st) \<and>
            Suc (length (network_requests (network_request_handler message st))) =
              length (network_requests st)) \<and>
         (max_network_entries st \<le> length (network_responses st) \<and> response_data message = Inl e \<longrightarrow>
            network_responses (network_response_handler message st) = tl (network_responses st) \<and>
            Suc (length (network_responses (network_response_handler message st))) =
              length (network_responses st))"
proof -
  have "Suc (length (tl buf)) = length buf" if "max_network_entries st \<le> length buf" for buf :: "pyval list"
    using that assms by (cases buf) auto
  then show ?thesis
    using assms
    by (simp add: network_request_handler_def network_response_handler_def capture_failed)
qed

theorem failed_projection_still_evicts_witness:
  "0 < max_network_entries full_client \<and>
   max_network_entries full_client \<le> length (network_requests full_client) \<and>
   max_network_entries full_client \<le> length (network_responses full_client) \<and>
   request_data (PStr ''junk'') = Inl AttributeError \<and>
   response_data (PStr ''junk'') = Inl AttributeError \<and>
   network_requests (network_request_handler (PStr ''junk'') full_client) = [PStr ''r2''] \<and>
   network_responses (network_response_handler (PStr ''junk'') full_client) = [PStr ''s2'']"
proof -
  have pos: "0 < max_network_entries full_client"
    by (simp add: full_client_def small_client_def init_def)
  have bad: "request_data (PStr ''junk'') = Inl AttributeError"
    "response_data (PStr ''junk'') = Inl AttributeError"
    by (simp_all add: request_data_def response_data_def ebind_def)
  from failed_projection_still_evicts [OF pos, of "PStr ''junk''" AttributeError] bad
  show ?thesis by (simp add: full_client_def small_client_def init_def)
qed

section \<open>Start and stop in their fixed states\<close>

text \<open>
  C8. \<open>start_network_monitoring\<close> with the flag set, and \<open>stop_network_monitoring\<close>
  with the flag clear, return \<^verbatim>\<open>True\<close> and leave the whole state as it was: the flag,
  both buffers, and the list of calls made to the collaborators (no driver command).
\<close>

theorem start_stop_idempotent:
  "(network_monitoring st \<longrightarrow> start_network_monitoring env st = (True, st)) \<and>
   (\<not> network_monitoring st \<longrightarrow> stop_network_monitoring env st = (True, st))"
  by (simp add: start_network_monitoring_def stop_network_monitoring_def)

theorem start_stop_idempotent_witness:
  "network_monitoring monitoring_client \<and> \<not> network_monitoring init \<and>
   start_network_monitoring quiet_env monitoring_client = (True, monitoring_client) \<and>
   stop_network_monitoring quiet_env init = (True, init) \<and>
   history (snd (start_network_monitoring quiet_env monitoring_client)) = [] \<and>
   history (snd (stop_network_monitoring quiet_env init)) = []"
proof -
  have m: "network_monitoring monitoring_client" "\<not> network_monitoring init"
    by (simp_all add: monitoring_client_def init_def)
  from start_stop_idempotent [of monitoring_client quiet_env]
    start_stop_idempotent [of init quiet_env] m
  show ?thesis by (simp add: monitoring_client_def init_def)
qed

section \<open>The monitoring controller\<close>

lemma perform_fields [simp]:
  "network_monitoring (snd (perform env c st)) = network_monitoring st"
  "max_network_entries (snd (perform env c st)) = max_network_entries st"
  "history (snd (perform env c st)) = history st @ [c]"
  "fst (perform env c st) = ret (collaborator env (history st) c)"
  "\<not> parent_call c \<Longrightarrow> driver (snd (perform env c st)) = driver st"
  by (simp_all add: perform_def Let_def)

lemma perform_keeps_flag:
  "perform env c st = (r, st1) \<Longrightarrow> network_monitoring st1 = network_monitoring st"
  using perform_fields(1) [of env c st] by simp

lemma start_failed_flag:
  "fst (start_network_monitoring env st) = False \<Longrightarrow>
   \<not> network_monitoring (snd (start_network_monitoring env st))"
  by (auto simp: start_network_monitoring_def split: prod.splits sum.splits if_splits
        dest!: perform_keeps_flag)

text \<open>
  C3, as amended. When monitoring is active, a driver exists and \<^verbatim>\<open>Network.disable\<close> raises,
  \<open>stop_network_monitoring\<close> returns \<^verbatim>\<open>False\<close> and the flag stays set: the assignment that
  clears it is inside the \<^verbatim>\<open>try\<close>, after the command. A repeated call is therefore not a
  no-op: it issues \<^verbatim>\<open>Network.disable\<close> again.
\<close>

theorem stop_failure_keeps_monitoring:
  assumes "network_monitoring st" and "driver st"
    and "ret (collaborator env (history st) disable_cmd) = Inl e"
  shows "fst (stop_network_monitoring env st) = False \<and>
         network_monitoring (snd (stop_network_monitoring env st)) \<and>
         history (snd (stop_network_monitoring env st)) = history st @ [disable_cmd] \<and>
         history (snd (stop_network_monitoring env (snd (stop_network_monitoring env st)))) =
           history st @ [disable_cmd, disable_cmd]"
proof -
  obtain r st1 where p: "perform env disable_cmd st = (r, st1)"
    by (cases "perform env disable_cmd st")
  have "r = fst (perform env disable_cmd st)" using p by simp
  then have r: "r = Inl e" using assms(3) by simp
  have st1: "network_monitoring st1" "driver st1" "history st1 = history st @ [disable_cmd]"
  proof -
    have eq: "st1 = snd (perform env disable_cmd st)" using p by simp
    show "network_monitoring st1" "driver st1" "history st1 = history st @ [disable_cmd]"
      unfolding eq using assms by (simp_all add: disable_cmd_def)
  qed
  have first: "stop_network_monitoring env st = (False, st1)"
    using assms p r by (simp add: stop_network_monitoring_def disable_cmd_def)
  obtain r2 st2 where p2: "perform env disable_cmd st1 = (r2, st2)"
    by (cases "perform env disable_cmd st1")
  have "st2 = snd (perform env disable_cmd st1)" using p2 by simp
  then have h2: "history st2 = history st @ [disable_cmd, disable_cmd]"
    using st1 by simp
  have "history (snd (stop_network_monitoring env st1)) = history st @ [disable_cmd, disable_cmd]"
    using st1 p2 h2 by (cases r2) (simp_all add: stop_network_monitoring_def disable_cmd_def)
  with first st1 show ?thesis by simp
qed

theorem stop_failure_keeps_monitoring_witness:
  "network_monitoring monitoring_client \<and> driver monitoring_client \<and>
   ret (collaborator failing_disable_env (history monitoring_client) disable_cmd) = Inl DriverError \<and>
   fst (stop_network_monitoring failing_disable_env monitoring_client) = False \<and>
   network_monitoring (snd (stop_network_monitoring failing_disable_env monitoring_client)) \<and>
   history (snd (stop_network_monitoring failing_disable_env monitoring_client)) = [disable_cmd]"
proof -
  have a: "network_monitoring monitoring_client" "driver monitoring_client"
    by (simp_all add: monitoring_client_def init_def)
  have b: "ret (collaborator failing_disable_env (history monitoring_client) disable_cmd) = Inl DriverError"
    by (simp add: failing_disable_env_def quiet_env_def quiet_reply_def)
  from stop_failure_keeps_monitoring [OF a b] a b
  show ?thesis by (simp add: monitoring_client_def init_def)
qed

text \<open>
  C3 as stated fails: with a driver whose \<^verbatim>\<open>Network.disable\<close> raises, the flag is still set
  after the failed call, and the repeated call fails again instead of succeeding.
\<close>

theorem stop_failure_resets_flag_counterexample:
  "network_monitoring monitoring_client \<and>
   ret (collaborator failing_disable_env (history monitoring_client) disable_cmd) = Inl DriverError \<and>
   fst (stop_network_monitoring failing_disable_env monitoring_client) = False \<and>
   network_monitoring (snd (stop_network_monitoring failing_disable_env monitoring_client)) = True \<and>
   fst (stop_network_monitoring failing_disable_env
         (snd (stop_network_monitoring failing_disable_env monitoring_client))) = False"
  by (simp add: stop_network_monitoring_def perform_def failing_disable_env_def quiet_env_def
        quiet_reply_def monitoring_client_def init_def disable_cmd_def Let_def)

section \<open>The orchestrator's fallback\<close>

text \<open>
  C7. If \<open>start_network_monitoring\<close> fails after the buffers were cleared,
  \<open>assess_api_enhanced\<close> returns what the static \<open>assess_api\<close> returns for the URL,
  untouched: the first call's result, or, when that call raises, the outcome of the
  handler's second call. The monitoring flag is clear at the end.
\<close>

theorem start_failure_falls_back:
  assumes "fst (start_network_monitoring env (clear_network_data st)) = False"
  shows "assess_api_enhanced env api_url st =
           (case assess_api env api_url (snd (start_network_monitoring env (clear_network_data st))) of
              (Inr res, st2) \<Rightarrow> (Inr res, st2)
            | (Inl e, st2) \<Rightarrow> assess_api env api_url st2) \<and>
         \<not> network_monitoring (snd (assess_api_enhanced env api_url st))"
proof -
  obtain ok st1 where s: "start_network_monitoring env (clear_network_data st) = (ok, st1)"
    by (cases "start_network_monitoring env (clear_network_data st)")
  with assms have ok: "\<not> ok" by simp
  have flag: "\<not> network_monitoring st1"
    using start_failed_flag [OF assms] s by simp
  have att: "enhanced_attempt env api_url st = assess_api env api_url st1"
    using s ok by (simp add: enhanced_attempt_def)
  have keep: "\<not> network_monitoring (snd (assess_api env api_url s0))" if "\<not> network_monitoring s0" for s0
    using that by (simp add: assess_api_def)
  obtain r st2 where a: "assess_api env api_url st1 = (r, st2)"
    by (cases "assess_api env api_url st1")
  have flag2: "\<not> network_monitoring st2" using keep [OF flag] a by simp
  have stop: "stop_network_monitoring env st2 = (True, st2)"
    using flag2 by (simp add: stop_network_monitoring_def)
  show ?thesis
  proof (cases r)
    case (Inl e)
    then show ?thesis using att a s stop keep [OF flag2]
      by (simp add: assess_api_enhanced_def)
  next
    case (Inr res)
    then show ?thesis using att a s flag2
      by (simp add: assess_api_enhanced_def)
  qed
qed

theorem start_failure_falls_back_witness:
  "fst (start_network_monitoring no_driver_env (clear_network_data init)) = False \<and>
   fst (assess_api_enhanced no_driver_env ''https://rapidapi.com/acme/api/weather'' init) = Inr static_result \<and>
   \<not> network_monitoring (snd (assess_api_enhanced no_driver_env ''https://rapidapi.com/acme/api/weather'' init))"
proof -
  have a: "fst (start_network_monitoring no_driver_env (clear_network_data init)) = False"
    by (simp add: start_network_monitoring_def perform_def no_driver_env_def quiet_env_def
          clear_network_data_def init_def Let_def)
  have b: "fst (assess_api no_driver_env u s) = Inr static_result" for u s
    by (simp add: assess_api_def perform_def no_driver_env_def quiet_env_def Let_def)
  from start_failure_falls_back [OF a, of "''https://rapidapi.com/acme/api/weather''"] a
  show ?thesis
    using b [of "''https://rapidapi.com/acme/api/weather''"
               "snd (start_network_monitoring no_driver_env (clear_network_data init))"]
    by (auto split: prod.splits sum.splits)
qed

section \<open>Reading the response buffer\<close>

text \<open>
  C2. A \<^verbatim>\<open>responseReceived\<close> event without a URL is recorded with \<^verbatim>\<open>url\<close> equal to
  \<^verbatim>\<open>None\<close>. The key is present, so \<^verbatim>\<open>resp.get('url', '')\<close> yields \<^verbatim>\<open>None\<close> and not the
  default, and \<^verbatim>\<open>.lower()\<close> raises: with such a record in the buffer the unfiltered read
  returns it and the filtered read raises \<^verbatim>\<open>AttributeError\<close>.
\<close>

theorem null_url_filter_raises:
  "response_data null_url_message =
     Inr (PDict [(''requestId'', PStr ''1''), (''url'', PNone), (''status'', PInt 200),
                 (''statusText'', PNone), (''headers'', PDict []), (''mimeType'', PNone),
                 (''timestamp'', PNone), (''type'', PNone)]) \<and>
   length (network_responses (network_response_handler null_url_message init)) = 1 \<and>
   get_network_responses None (network_response_handler null_url_message init) =
     Inr (network_responses (network_response_handler null_url_message init)) \<and>
   get_network_responses (Some ''graphql'') (network_response_handler null_url_message init) =
     Inl AttributeError"
  by (simp add: get_network_responses_def network_response_handler_def null_url_message_def
        init_def capture_def pop_oldest_def response_data_def get_nested_def ebind_def)

text \<open>Where every record has a URL text, the filtered read is the filter the claim
  describes.\<close>

lemma filter_responses_text:
  "list_all (\<lambda>r. url_text r \<noteq> None) rs \<Longrightarrow>
   filter_responses f rs =
     Inr (filter (\<lambda>r. contains (py_lower f) (py_lower (the (url_text r)))) rs)"
proof (induction rs)
  case Nil
  show ?case by simp
next
  case (Cons r rs)
  then obtain d where d: "r = PDict d" by (cases r) auto
  with Cons.prems have "(\<exists>u. map_of d ''url'' = Some (PStr u)) \<or> map_of d ''url'' = None"
    by (auto split: option.splits pyval.splits)
  with Cons d show ?case by (auto simp: ebind_def)
qed

section \<open>The GraphQL extractor\<close>

lemma graphql_weather_fields:
  "graphql_record env weather_json [] =
     ([(''name'', PStr ''Weather API''), (''rating'', PFloat (9 / 2)), (''reviewCount'', PInt 120)], True)"
  by (simp add: graphql_record_def weather_json_def select_api_info_def ebind_def
        graphql_fields_def copy_truthy_def dict_get_def pricing_of_def endpoints_of_def
        int_of_str_def strip_def is_space_def is_digit_def)

text \<open>
  C5, as amended. For a response list whose first record has a truthy \<^verbatim>\<open>requestId\<close> and
  whose fetched body is the weather text (which \<^verbatim>\<open>json.loads\<close> parses to \<open>weather_json\<close>),
  the GraphQL extractor returns exactly \<^verbatim>\<open>name\<close> = "Weather API", \<^verbatim>\<open>rating\<close> = the float
  4.5 and \<^verbatim>\<open>reviewCount\<close> = the integer 120, whatever records follow.
\<close>

theorem graphql_weather_extracted:
  assumes "py_get response ''requestId'' PNone = Inr rid" and "truthy rid"
    and "fst (get_response_body env rid st) = PStr weather_body"
    and "json_loads env weather_body = Some weather_json"
  shows "fst (extract_graphql_data env (response # rest) st) =
           [(''name'', PStr ''Weather API''), (''rating'', PFloat (9 / 2)),
            (''reviewCount'', PInt 120)]"
proof -
  obtain body st1 where b: "get_response_body env rid st = (body, st1)"
    by (cases "get_response_body env rid st")
  with assms(3) have body: "body = PStr weather_body" by simp
  have nonempty: "weather_body \<noteq> []" by (simp add: weather_body_def)
  show ?thesis
    using assms(1,2,4) b body nonempty graphql_weather_fields [of env]
    by (simp add: extract_graphql_data_def)
qed

theorem graphql_weather_extracted_witness:
  "py_get (graphql_record_of (PStr ''7'')) ''requestId'' PNone = Inr (PStr ''7'') \<and>
   truthy (PStr ''7'') \<and>
   fst (get_response_body weather_env (PStr ''7'') monitoring_client) = PStr weather_body \<and>
   json_loads weather_env weather_body = Some weather_json \<and>
   fst (extract_graphql_data weather_env [graphql_record_of (PStr ''7'')] monitoring_client) =
     [(''name'', PStr ''Weather API''), (''rating'', PFloat (9 / 2)), (''reviewCount'', PInt 120)]"
proof -
  have a: "py_get (graphql_record_of (PStr ''7'')) ''requestId'' PNone = Inr (PStr ''7'')"
    by (simp add: graphql_record_of_def)
  have t: "truthy (PStr ''7'')" by simp
  have b: "fst (get_response_body weather_env (PStr ''7'') monitoring_client) = PStr weather_body"
    by (simp add: get_response_body_def perform_def weather_env_def quiet_env_def body_reply_def
          monitoring_client_def init_def Let_def)
  have c: "json_loads weather_env weather_body = Some weather_json"
    by (simp add: weather_env_def quiet_env_def)
  from graphql_weather_extracted [OF a t b c, of "[]"] a b c show ?thesis by simp
qed

text \<open>
  C5 as stated fails for a \<^verbatim>\<open>requestId\<close> that is not \<^verbatim>\<open>None\<close> but falsy: the guard
  \<^verbatim>\<open>if request_id:\<close> skips the record with the empty string as its id, the body is never
  fetched and the extractor returns the empty mapping.
\<close>

theorem empty_request_id_counterexample:
  "py_get (graphql_record_of (PStr [])) ''requestId'' PNone = Inr (PStr []) \<and>
   PStr [] \<noteq> PNone \<and>
   fst (get_response_body weather_env (PStr []) monitoring_client) = PStr weather_body \<and>
   json_loads weather_env weather_body = Some weather_json \<and>
   fst (extract_graphql_data weather_env [graphql_record_of (PStr [])] monitoring_client) = []"
  by (simp add: graphql_record_of_def get_response_body_def perform_def weather_env_def
        quiet_env_def body_reply_def monitoring_client_def init_def Let_def
        extract_graphql_data_def)

section \<open>The structured-payload extractor\<close>

lemma desc_search_unfold:
  "xs \<noteq> [] \<Longrightarrow>
   desc_search xs =
     (if prefix desc_key xs then
        (if CHR 0x22 \<in> set (drop (length desc_key) xs)
         then Some (takeWhile (\<lambda>x. x \<noteq> CHR 0x22) (drop (length desc_key) xs))
         else desc_search (tl xs))
      else desc_search (tl xs))"
  by (cases xs) (simp_all add: Let_def)

lemma desc_key_nonempty: "desc_key \<noteq> []"
  by (simp add: desc_key_def)

lemma desc_search_here:
  assumes "CHR 0x22 \<notin> set txt"
  shows "desc_search (desc_key @ txt @ CHR 0x22 # post) = Some txt"
proof -
  have "\<forall>x\<in>set txt. x \<noteq> CHR 0x22" using assms by auto
  then have "takeWhile (\<lambda>x. x \<noteq> CHR 0x22) (txt @ CHR 0x22 # post) = txt"
    by (simp add: takeWhile_append2)
  then show ?thesis
    using desc_key_nonempty by (simp add: desc_search_unfold)
qed

lemma prefix_shorter:
  "prefix k (y @ z) \<Longrightarrow> length k \<le> length y \<Longrightarrow> prefix k y"
proof -
  assume p: "prefix k (y @ z)" and len: "length k \<le> length y"
  from p obtain zs where eq: "y @ z = k @ zs" by (auto simp: prefix_def)
  have "take (length k) (y @ z) = take (length k) y" using len by simp
  moreover have "take (length k) (k @ zs) = k" by simp
  ultimately have "k = take (length k) y" using eq by simp
  then show "prefix k y" by (metis take_is_prefix)
qed

lemma desc_search_first:
  assumes "\<not> contains desc_key (pre @ butlast desc_key)" and "CHR 0x22 \<notin> set txt"
  shows "desc_search (pre @ desc_key @ txt @ CHR 0x22 # post) = Some txt"
  using assms(1)
proof (induction pre)
  case Nil
  show ?case using desc_search_here [OF assms(2)] by simp
next
  case (Cons a pre)
  from Cons.prems have no_here: "\<not> prefix desc_key (a # pre @ butlast desc_key)"
    and later: "\<not> contains desc_key (pre @ butlast desc_key)"
    by simp_all
  have split: "a # pre @ desc_key @ txt @ CHR 0x22 # post =
        (a # pre @ butlast desc_key) @ (last desc_key # txt @ CHR 0x22 # post)"
    using desc_key_nonempty append_butlast_last_id [of desc_key]
    by (metis append.assoc append_Cons append_Nil)
  have "\<not> prefix desc_key (a # pre @ desc_key @ txt @ CHR 0x22 # post)"
  proof
    assume "prefix desc_key (a # pre @ desc_key @ txt @ CHR 0x22 # post)"
    then have "prefix desc_key ((a # pre @ butlast desc_key) @ (last desc_key # txt @ CHR 0x22 # post))"
      using split by simp
    moreover have "length desc_key \<le> length (a # pre @ butlast desc_key)"
      by simp
    ultimately have "prefix desc_key (a # pre @ butlast desc_key)"
      by (rule prefix_shorter)
    with no_here show False by simp
  qed
  then have "desc_search (a # pre @ desc_key @ txt @ CHR 0x22 # post) =
               desc_search (pre @ desc_key @ txt @ CHR 0x22 # post)"
    by simp
  with Cons.IH [OF later] show ?case by simp
qed

lemma rsc_later_blocks_keep_description:
  "map_of (rsc_provider u acc) ''description'' = map_of acc ''description''"
  "map_of (rsc_pricing env u b acc) ''description'' = map_of acc ''description''"
  "map_of (rsc_endpoints env u b acc) ''description'' = map_of acc ''description''"
  by (simp_all add: rsc_provider_def rsc_pricing_def rsc_endpoints_def update_conv'
        split: option.splits)

lemma rsc_fields_description:
  "map_of (rsc_fields env (PStr u) (PStr b) acc) ''description'' =
     (case desc_search b of Some d \<Rightarrow> Some (PStr d) | None \<Rightarrow> map_of acc ''description'')"
  by (simp add: rsc_fields_def rsc_later_blocks_keep_description rsc_description_def update_conv'
        split: option.splits)

text \<open>
  C9, as amended. For a record with a truthy \<^verbatim>\<open>requestId\<close> whose URL contains \<^verbatim>\<open>/api/\<close>
  and whose fetched body holds the literal text
  \<^verbatim>\<open>"description","content":"Free weather data"\<close> at the first place where the key
  \<^verbatim>\<open>"description","content":"\<close> occurs, the structured-payload extractor, run on that
  record, returns a mapping whose \<^verbatim>\<open>description\<close> is "Free weather data".
\<close>

theorem rsc_description_extracted:
  assumes "py_get response ''requestId'' PNone = Inr rid" and "truthy rid"
    and "py_get response ''url'' (PStr []) = Inr (PStr u)" and "contains ''/api/'' u"
    and "fst (get_response_body env rid st) =
           PStr (pre @ desc_key @ ''Free weather data'' @ CHR 0x22 # post)"
    and "\<not> contains desc_key (pre @ butlast desc_key)"
  shows "map_of (fst (extract_rsc_data env [response] st)) ''description'' =
           Some (PStr ''Free weather data'')"
proof -
  let ?b = "pre @ desc_key @ ''Free weather data'' @ CHR 0x22 # post"
  obtain body st1 where g: "get_response_body env rid st = (body, st1)"
    by (cases "get_response_body env rid st")
  with assms(5) have body: "body = PStr ?b" by simp
  have found: "desc_search ?b = Some ''Free weather data''"
    using desc_search_first [OF assms(6), of "''Free weather data''" post] by simp
  have run: "fst (extract_rsc_data env [response] st) = rsc_fields env (PStr u) (PStr ?b) []"
    using assms(1-4) g body by (simp add: extract_rsc_data_def)
  have "map_of (rsc_fields env (PStr u) (PStr ?b) []) ''description'' =
          Some (PStr ''Free weather data'')"
    unfolding rsc_fields_description found by simp
  then show ?thesis unfolding run .
qed


theorem rsc_description_extracted_witness:
  \<open>py_get (rsc_record_of (PStr ''9'')) ''requestId'' PNone = Inr (PStr ''9'') \<and>
   truthy (PStr ''9'') \<and>
   py_get (rsc_record_of (PStr ''9'')) ''url'' (PStr []) =
     Inr (PStr ''https://rapidapi.com/acme/api/weather'') \<and>
   contains ''/api/'' ''https://rapidapi.com/acme/api/weather'' \<and>
   fst (get_response_body rsc_env (PStr ''9'') monitoring_client) = PStr rsc_body \<and>
   rsc_body = ''1:["$","meta","2",{"name":'' @ desc_key @ ''Free weather data'' @ CHR 0x22 # ''}]'' \<and>
   \<not> contains desc_key (''1:["$","meta","2",{"name":'' @ butlast desc_key) \<and>
   map_of (fst (extract_rsc_data rsc_env [rsc_record_of (PStr ''9'')] monitoring_client))
     ''description'' = Some (PStr ''Free weather data'')\<close>
proof -
  have a: "py_get (rsc_record_of (PStr ''9'')) ''requestId'' PNone = Inr (PStr ''9'')"
    by (simp add: rsc_record_of_def)
  have t: "truthy (PStr ''9'')" by simp
  have u: "py_get (rsc_record_of (PStr ''9'')) ''url'' (PStr []) =
             Inr (PStr ''https://rapidapi.com/acme/api/weather'')"
    by (simp add: rsc_record_of_def)
  have c: "contains ''/api/'' ''https://rapidapi.com/acme/api/weather''" by simp
  have split: \<open>rsc_body =
      ''1:["$","meta","2",{"name":'' @ desc_key @ ''Free weather data'' @ CHR 0x22 # ''}]''\<close>
    by (simp add: rsc_body_def desc_key_def)
  have b0: "fst (get_response_body rsc_env (PStr ''9'') monitoring_client) = PStr rsc_body"
    by (simp add: get_response_body_def perform_def rsc_env_def quiet_env_def body_reply_def
          monitoring_client_def init_def Let_def)
  have b: \<open>fst (get_response_body rsc_env (PStr ''9'') monitoring_client) =
      PStr (''1:["$","meta","2",{"name":'' @ desc_key @ ''Free weather data'' @ CHR 0x22 # ''}]'')\<close>
    unfolding b0 split [symmetric] ..
  have n: \<open>\<not> contains desc_key (''1:["$","meta","2",{"name":'' @ butlast desc_key)\<close>
    by (simp add: desc_key_def)
  from rsc_description_extracted [OF a t u c b n] a t u c b0 split n
  show ?thesis by blast
qed

text \<open>
  C9 as stated fails for a \<^verbatim>\<open>requestId\<close> that is not \<^verbatim>\<open>None\<close> but falsy: the record with
  the empty string as its id is skipped by \<^verbatim>\<open>if request_id and ...\<close>, although its URL
  contains \<^verbatim>\<open>/api/\<close> and its body contains the literal text; no description is returned.
\<close>

theorem rsc_empty_request_id_counterexample:
  "py_get (rsc_record_of (PStr [])) ''requestId'' PNone = Inr (PStr []) \<and>
   PStr [] \<noteq> PNone \<and>
   py_get (rsc_record_of (PStr [])) ''url'' (PStr []) =
     Inr (PStr ''https://rapidapi.com/acme/api/weather'') \<and>
   contains ''/api/'' ''https://rapidapi.com/acme/api/weather'' \<and>
   fst (get_response_body rsc_env (PStr []) monitoring_client) = PStr rsc_body \<and>
   contains (desc_key @ ''Free weather data'' @ [CHR 0x22]) rsc_body \<and>
   map_of (fst (extract_rsc_data rsc_env [rsc_record_of (PStr [])] monitoring_client))
     ''description'' = None"
  by (simp add: rsc_record_of_def get_response_body_def perform_def rsc_env_def quiet_env_def
        body_reply_def monitoring_client_def init_def Let_def extract_rsc_data_def
        rsc_body_def desc_key_def)

section \<open>Selecting the API-info object\<close>

text \<open>
  C6. For a \<^verbatim>\<open>data\<close> object \<open>d\<close>, the API-info object is the value at the first present
  of \<^verbatim>\<open>api\<close>, \<^verbatim>\<open>getApi\<close>, \<^verbatim>\<open>apiDetails\<close>, \<^verbatim>\<open>marketplace.api\<close>, in that order. And when
  a record's parsed envelope yields a truthy API-info object, the loop returns the fields
  of that object in the state reached right after that record's body was fetched, whatever
  records follow: none of them is scanned.
\<close>

theorem api_info_priority_and_stop:
  "(map_of d ''api'' = Some v \<longrightarrow> select_api_info (PDict d) = Inr v) \<and>
   (map_of d ''api'' = None \<and> map_of d ''getApi'' = Some v \<longrightarrow>
      select_api_info (PDict d) = Inr v) \<and>
   (map_of d ''api'' = None \<and> map_of d ''getApi'' = None \<and> map_of d ''apiDetails'' = Some v \<longrightarrow>
      select_api_info (PDict d) = Inr v) \<and>
   (map_of d ''api'' = None \<and> map_of d ''getApi'' = None \<and> map_of d ''apiDetails'' = None \<and>
    map_of d ''marketplace'' = Some (PDict m) \<and> map_of m ''api'' = Some v \<longrightarrow>
      select_api_info (PDict d) = Inr v) \<and>
   (py_get response ''requestId'' PNone = Inr rid \<and> truthy rid \<and>
    get_response_body env rid st = (body, st1) \<and> truthy body \<and>
    py_json_loads env body = Inr (PDict envelope) \<and>
    map_of envelope ''data'' = Some (PDict d) \<and>
    select_api_info (PDict d) = Inr info \<and> truthy info \<longrightarrow>
      extract_graphql_loop env (response # rest) acc st = (graphql_fields env info acc, st1))"
proof -
  have paths: "(map_of d ''api'' = Some v \<longrightarrow> select_api_info (PDict d) = Inr v) \<and>
   (map_of d ''api'' = None \<and> map_of d ''getApi'' = Some v \<longrightarrow>
      select_api_info (PDict d) = Inr v) \<and>
   (map_of d ''api'' = None \<and> map_of d ''getApi'' = None \<and> map_of d ''apiDetails'' = Some v \<longrightarrow>
      select_api_info (PDict d) = Inr v) \<and>
   (map_of d ''api'' = None \<and> map_of d ''getApi'' = None \<and> map_of d ''apiDetails'' = None \<and>
    map_of d ''marketplace'' = Some (PDict m) \<and> map_of m ''api'' = Some v \<longrightarrow>
      select_api_info (PDict d) = Inr v)"
    by (simp add: select_api_info_def ebind_def)
  have stop: "extract_graphql_loop env (response # rest) acc st = (graphql_fields env info acc, st1)"
    if "py_get response ''requestId'' PNone = Inr rid" "truthy rid"
      "get_response_body env rid st = (body, st1)" "truthy body"
      "py_json_loads env body = Inr (PDict envelope)"
      "map_of envelope ''data'' = Some (PDict d)"
      "select_api_info (PDict d) = Inr info" "truthy info"
  proof -
    have "graphql_record env (PDict envelope) acc = (graphql_fields env info acc, True)"
      using that(6-8) by (simp add: graphql_record_def ebind_def)
    then show ?thesis using that(1-5) by simp
  qed
  from paths stop show ?thesis by blast
qed

theorem api_info_priority_and_stop_witness:
  "select_api_info (PDict [(''getApi'', PInt 1), (''api'', PInt 2)]) = Inr (PInt 2) \<and>
   select_api_info (PDict [(''apiDetails'', PInt 3), (''getApi'', PInt 1)]) = Inr (PInt 1) \<and>
   select_api_info (PDict [(''marketplace'', PDict [(''api'', PInt 4)]), (''apiDetails'', PInt 3)]) =
     Inr (PInt 3) \<and>
   select_api_info (PDict [(''marketplace'', PDict [(''api'', PDict [(''name'', PStr ''Weather API'')])])]) =
     Inr (PDict [(''name'', PStr ''Weather API'')]) \<and>
   extract_graphql_loop market_env [graphql_record_of (PStr ''1''), graphql_record_of (PStr ''2'')] []
       monitoring_client =
     ([(''name'', PStr ''Weather API'')],
      monitoring_client\<lparr>history := [ExecuteCdpCmd ''Network.getResponseBody''
                                        (PDict [(''requestId'', PStr ''1'')])]\<rparr>)"
proof -
  let ?st1 = "monitoring_client\<lparr>history := [ExecuteCdpCmd ''Network.getResponseBody''
                                        (PDict [(''requestId'', PStr ''1'')])]\<rparr>"
  let ?info = "PDict [(''name'', PStr ''Weather API'')]"
  let ?d = "[(''marketplace'', PDict [(''api'', ?info)])]"
  have body: "get_response_body market_env (PStr ''1'') monitoring_client = (PStr ''{...}'', ?st1)"
    by (simp add: get_response_body_def perform_def market_env_def quiet_env_def body_reply_def
          monitoring_client_def init_def Let_def)
  have fields: "graphql_fields market_env ?info [] = [(''name'', PStr ''Weather API'')]"
    by (simp add: graphql_fields_def copy_truthy_def dict_get_def pricing_of_def endpoints_of_def)
  have loads: "py_json_loads market_env (PStr ''{...}'') = Inr (PDict [(''data'', PDict ?d)])"
    by (simp add: market_env_def quiet_env_def market_json_def)
  have rid: "py_get (graphql_record_of (PStr ''1'')) ''requestId'' PNone = Inr (PStr ''1'')"
    by (simp add: graphql_record_of_def)
  note t = api_info_priority_and_stop
  have p1: "select_api_info (PDict [(''getApi'', PInt 1), (''api'', PInt 2)]) = Inr (PInt 2)"
    using t [where d = "[(''getApi'', PInt 1), (''api'', PInt 2)]" and v = "PInt 2"] by simp
  have p2: "select_api_info (PDict [(''apiDetails'', PInt 3), (''getApi'', PInt 1)]) = Inr (PInt 1)"
    using t [where d = "[(''apiDetails'', PInt 3), (''getApi'', PInt 1)]" and v = "PInt 1"] by simp
  have p3: "select_api_info (PDict [(''marketplace'', PDict [(''api'', PInt 4)]), (''apiDetails'', PInt 3)]) =
     Inr (PInt 3)"
    using t [where d = "[(''marketplace'', PDict [(''api'', PInt 4)]), (''apiDetails'', PInt 3)]"
               and v = "PInt 3"] by simp
  have p4: "select_api_info (PDict ?d) = Inr ?info"
    using t [where d = ?d and v = ?info and m = "[(''api'', ?info)]"] by simp
  have p5: "extract_graphql_loop market_env
              [graphql_record_of (PStr ''1''), graphql_record_of (PStr ''2'')] [] monitoring_client =
            (graphql_fields market_env ?info [], ?st1)"
    using t [where d = ?d and response = "graphql_record_of (PStr ''1'')" and rid = "PStr ''1''"
               and env = market_env and st = monitoring_client and body = "PStr ''{...}''"
               and ?st1.0 = ?st1 and envelope = "[(''data'', PDict ?d)]" and info = ?info
               and rest = "[graphql_record_of (PStr ''2'')]" and acc = "[]"]
      body loads rid p4
    by simp
  from p1 p2 p3 p4 p5 fields show ?thesis by simp
qed

section \<open>Merging the extracted fields\<close>

lemma map_of_py_update:
  "distinct (map fst other) \<Longrightarrow>
   map_of (py_update d other) k =
     (case map_of other k of Some v \<Rightarrow> Some v | None \<Rightarrow> map_of d k)"
proof (induction other arbitrary: d)
  case Nil
  show ?case by (simp add: py_update_def)
next
  case (Cons item other)
  obtain k1 v1 where item: "item = (k1, v1)" by (cases item)
  with Cons.prems have fresh: "map_of other k1 = None" and rest: "distinct (map fst other)"
    by (auto simp: map_of_eq_None_iff)
  have "py_update d (item # other) = py_update (AList.update k1 v1 d) other"
    by (simp add: py_update_def item)
  then show ?case
    using Cons.IH [OF rest, of "AList.update k1 v1 d"] fresh item
    by (auto simp: update_conv' split: option.splits)
qed

lemma distinct_py_update:
  "distinct (map fst d) \<Longrightarrow> distinct (map fst (py_update d other))"
proof (induction other arbitrary: d)
  case Nil
  then show ?case by (simp add: py_update_def)
next
  case (Cons item other)
  obtain k1 v1 where item: "item = (k1, v1)" by (cases item)
  have "py_update d (item # other) = py_update (AList.update k1 v1 d) other"
    by (simp add: py_update_def item)
  with Cons.IH [of "AList.update k1 v1 d"] Cons.prems show ?case
    by (simp add: distinct_update)
qed

lemma map_of_combine:
  assumes "distinct (map fst rsc_data)" and "distinct (map fst graphql_data)"
  shows "map_of (combine rsc_data graphql_data) k =
           (case map_of graphql_data k of Some v \<Rightarrow> Some v | None \<Rightarrow> map_of rsc_data k)"
proof -
  have first: "map_of (if rsc_data \<noteq> [] then py_update [] rsc_data else []) k = map_of rsc_data k"
    using map_of_py_update [OF assms(1), of "[]" k] by (auto split: option.splits)
  show ?thesis
  proof (cases "graphql_data = []")
    case True
    with first show ?thesis by (simp add: combine_def)
  next
    case False
    with first map_of_py_update [OF assms(2), of "if rsc_data \<noteq> [] then py_update [] rsc_data else []" k]
    show ?thesis by (auto simp: combine_def Let_def split: option.splits)
  qed
qed

lemma distinct_combine: "distinct (map fst (combine rsc_data graphql_data))"
  by (simp add: combine_def Let_def distinct_py_update)

lemma merge_step_other:
  "k \<noteq> fst item \<Longrightarrow> map_of (merge_step item result) k = map_of result k"
  by (cases item) (simp add: merge_step_def update_conv')

lemma merge_step_same:
  "map_of (merge_step (k, v) result) k =
     (if truthy v \<and> \<not> py_eq v (dict_get result k) then Some v else map_of result k)"
  by (simp add: merge_step_def update_conv')

lemma map_of_merge_enhanced:
  "distinct (map fst enhanced) \<Longrightarrow>
   map_of (merge_enhanced enhanced result) k =
     (case map_of enhanced k of
        None \<Rightarrow> map_of result k
      | Some v \<Rightarrow>
          if truthy v \<and> \<not> py_eq v (dict_get result k) then Some v else map_of result k)"
proof (induction enhanced arbitrary: result)
  case Nil
  show ?case by (simp add: merge_enhanced_def)
next
  case (Cons item enhanced)
  obtain k1 v1 where item: "item = (k1, v1)" by (cases item)
  with Cons.prems have fresh: "map_of enhanced k1 = None" and rest: "distinct (map fst enhanced)"
    by (auto simp: map_of_eq_None_iff)
  have unfold: "merge_enhanced ((k1, v1) # enhanced) result =
                  merge_enhanced enhanced (merge_step (k1, v1) result)"
    by (simp add: merge_enhanced_def)
  note IH = Cons.IH [OF rest, of "merge_step (k1, v1) result"]
  show ?case
  proof (cases "k = k1")
    case True
    with IH fresh show ?thesis unfolding item unfold by (simp add: merge_step_same)
  next
    case False
    then have same: "map_of (merge_step (k1, v1) result) k = map_of result k"
      by (simp add: merge_step_other)
    then have "dict_get (merge_step (k1, v1) result) k = dict_get result k"
      by (simp add: dict_get_def)
    with IH same False show ?thesis unfolding item unfold by (simp split: option.splits)
  qed
qed

text \<open>
  C4, as amended. For every baseline \<open>result\<close> and every pair of extractor outputs, the
  value the merge considers for a key is GraphQL's when GraphQL produced the key, else the
  structured payload's; the merged result holds that value exactly when it is truthy and
  differs (\<^verbatim>\<open>!=\<close>) from the baseline's value, and keeps the baseline's entry otherwise. So
  when both extractors produce a field the structured value is dropped, and the merged
  result holds the GraphQL value provided it is truthy (or the baseline's equal value).
\<close>

theorem merge_overwrites_truthy_changed:
  assumes "distinct (map fst rsc_data)" and "distinct (map fst graphql_data)"
  shows "map_of (merge_enhanced (combine rsc_data graphql_data) result) key =
           (case (case map_of graphql_data key of
                    Some v \<Rightarrow> Some v
                  | None \<Rightarrow> map_of rsc_data key) of
              None \<Rightarrow> map_of result key
            | Some v \<Rightarrow>
                if truthy v \<and> \<not> py_eq v (dict_get result key) then Some v
                else map_of result key) \<and>
         (map_of graphql_data key = Some g \<and> truthy g \<longrightarrow>
            map_of (merge_enhanced (combine rsc_data graphql_data) result) key = Some g \<or>
            py_eq g (dict_get result key) \<and>
            map_of (merge_enhanced (combine rsc_data graphql_data) result) key = map_of result key)"
proof -
  have main: "map_of (merge_enhanced (combine rsc_data graphql_data) result) key =
           (case (case map_of graphql_data key of
                    Some v \<Rightarrow> Some v
                  | None \<Rightarrow> map_of rsc_data key) of
              None \<Rightarrow> map_of result key
            | Some v \<Rightarrow>
                if truthy v \<and> \<not> py_eq v (dict_get result key) then Some v
                else map_of result key)"
    by (simp add: map_of_merge_enhanced [OF distinct_combine] map_of_combine [OF assms])
  then show ?thesis by auto
qed

text \<open>Both extractors return mappings with distinct keys, as the theorem asks.\<close>

lemma distinct_rsc_fields:
  "distinct (map fst acc) \<Longrightarrow> distinct (map fst (rsc_fields env url body acc))"
proof -
  assume acc: "distinct (map fst acc)"
  have d: "distinct (map fst (rsc_description b acc))" for b
    using acc by (simp add: rsc_description_def distinct_update split: option.splits)
  have p: "distinct (map fst (rsc_provider u a))" if "distinct (map fst a)" for u a
    using that by (simp add: rsc_provider_def distinct_update split: option.splits)
  have pr: "distinct (map fst (rsc_pricing env u b a))" if "distinct (map fst a)" for u b a
    using that by (simp add: rsc_pricing_def distinct_update split: option.splits)
  have e: "distinct (map fst (rsc_endpoints env u b a))" if "distinct (map fst a)" for u b a
    using that by (simp add: rsc_endpoints_def distinct_update split: option.splits)
  show ?thesis
    using acc d e [OF pr [OF p [OF d]]]
    by (simp add: rsc_fields_def Let_def split: pyval.splits)
qed

lemma distinct_extract_rsc_loop:
  "distinct (map fst acc) \<Longrightarrow>
   distinct (map fst (fst (extract_rsc_loop env responses acc st)))"
proof (induction responses arbitrary: acc st)
  case Nil
  then show ?case by simp
next
  case (Cons response rest)
  show ?case
    using Cons.prems Cons.IH distinct_rsc_fields [OF Cons.prems]
    by (simp split: sum.splits prod.splits)
qed

lemma distinct_graphql_fields:
  "distinct (map fst acc) \<Longrightarrow> distinct (map fst (graphql_fields env api_info acc))"
proof -
  assume acc: "distinct (map fst acc)"
  have c: "distinct (map fst (copy_truthy info k a))" if "distinct (map fst a)" for info k a
    using that by (simp add: copy_truthy_def distinct_update)
  have p: "distinct (map fst (pricing_of info a))" if "distinct (map fst a)" for info a
    using that by (simp add: pricing_of_def distinct_update)
  have e: "distinct (map fst (endpoints_of info a))" if "distinct (map fst a)" for info a
    using that by (simp add: endpoints_of_def distinct_update)
  have tail: "distinct (map fst (endpoints_of info (pricing_of info
                (copy_truthy info k3 (copy_truthy info k2 (copy_truthy info k1 a))))))"
    if "distinct (map fst a)" for info k1 k2 k3 a
    using that by (intro e p c)
  show ?thesis
  proof (cases api_info)
    case (PDict info)
    have acc2: "distinct (map fst (copy_truthy info ''description'' (copy_truthy info ''name'' acc)))"
      using acc by (intro c)
    show ?thesis
      unfolding graphql_fields_def PDict
      using acc2 tail
      by (auto simp: Let_def ebind_def distinct_update split: sum.splits if_splits)
  qed (simp_all add: graphql_fields_def acc)
qed

lemma distinct_extract_graphql_loop:
  "distinct (map fst acc) \<Longrightarrow>
   distinct (map fst (fst (extract_graphql_loop env responses acc st)))"
proof (induction responses arbitrary: acc st)
  case Nil
  then show ?case by simp
next
  case (Cons response rest)
  have rec0: "distinct (map fst (fst (graphql_record env parsed acc)))" for parsed
    using Cons.prems distinct_graphql_fields [OF Cons.prems]
    by (simp add: graphql_record_def split: sum.splits)
  have rec: "distinct (map fst a)" if "graphql_record env parsed acc = (a, fin)" for parsed a fin
    using rec0 [of parsed] that by simp
  show ?case
    using Cons.prems Cons.IH
    by (auto split: sum.splits prod.splits dest: rec)
qed

lemma distinct_extractor_outputs:
  "distinct (map fst (fst (extract_rsc_data env responses st)))"
  "distinct (map fst (fst (extract_graphql_data env responses st)))"
  by (simp_all add: extract_rsc_data_def extract_graphql_data_def
        distinct_extract_rsc_loop distinct_extract_graphql_loop)

lemma lower_endpoints_url:
  "py_lower ''https://rapidapi.com/acme/api/weather/endpoints'' =
     ''https://rapidapi.com/acme/api/weather/endpoints''"
  by (simp add: py_lower_def lower_char_def)

lemma rsc_run:
  "fst (extract_rsc_data session_env [endpoints_record] monitoring_client) =
     [(''provider'', PStr ''acme''), (''endpoints'', PList [PStr ''a''])]"
proof -
  have body: "get_response_body session_env (PStr ''1'') monitoring_client =
      (PStr endpoints_body, monitoring_client\<lparr>history := [body_request ''1'']\<rparr>)"
    by (simp add: get_response_body_def perform_def session_env_def quiet_env_def
          body_reply_def body_request_def monitoring_client_def init_def Let_def)
  have d: "rsc_description endpoints_body [] = []"
    by (simp add: rsc_description_def endpoints_body_def desc_key_def)
  have p: "rsc_provider ''https://rapidapi.com/acme/api/weather/endpoints'' [] =
             [(''provider'', PStr ''acme'')]"
    by (simp add: rsc_provider_def)
  have pr: "rsc_pricing session_env ''https://rapidapi.com/acme/api/weather/endpoints'' endpoints_body
              [(''provider'', PStr ''acme'')] = [(''provider'', PStr ''acme'')]"
    by (simp add: rsc_pricing_def lower_endpoints_url)
  have e: "rsc_endpoints session_env ''https://rapidapi.com/acme/api/weather/endpoints'' endpoints_body
              [(''provider'', PStr ''acme'')] =
            [(''provider'', PStr ''acme''), (''endpoints'', PList [PStr ''a''])]"
    by (simp add: rsc_endpoints_def lower_endpoints_url endpoints_key_def endpoints_body_def
          is_space_def session_env_def quiet_env_def methods_body_def)
  have nonempty: "endpoints_body \<noteq> []" by (simp add: endpoints_body_def)
  have "rsc_fields session_env (PStr ''https://rapidapi.com/acme/api/weather/endpoints'')
          (PStr endpoints_body) [] =
        [(''provider'', PStr ''acme''), (''endpoints'', PList [PStr ''a''])]"
    unfolding rsc_fields_def by (simp only: pyval.case Let_def d p pr e)
  then show ?thesis
    using body nonempty by (simp add: extract_rsc_data_def endpoints_record_def)
qed

lemma gql_run:
  "fst (extract_graphql_data session_env [graphql_record_of (PStr ''2'')] monitoring_client) =
     [(''name'', PStr ''Weather API''), (''endpoints'', PList [])]"
proof -
  have body: "get_response_body session_env (PStr ''2'') monitoring_client =
      (PStr methods_body, monitoring_client\<lparr>history := [body_request ''2'']\<rparr>)"
    by (simp add: get_response_body_def perform_def session_env_def quiet_env_def
          body_reply_def body_request_def monitoring_client_def init_def Let_def)
  have loads: "py_json_loads session_env (PStr methods_body) = Inr methods_json"
    by (simp add: session_env_def quiet_env_def)
  have fields: "graphql_record session_env methods_json [] =
      ([(''name'', PStr ''Weather API''), (''endpoints'', PList [])], True)"
    by (simp add: methods_json_def graphql_record_def select_api_info_def ebind_def
          graphql_fields_def copy_truthy_def dict_get_def pricing_of_def endpoints_of_def)
  have nonempty: "methods_body \<noteq> []" by (simp add: methods_body_def)
  show ?thesis
    using body loads fields nonempty
    by (simp add: extract_graphql_data_def graphql_record_of_def)
qed

text \<open>
  C4 as stated fails where the GraphQL value is falsy: both extractors produce
  \<^verbatim>\<open>endpoints\<close> (the GraphQL one from an empty \<^verbatim>\<open>methods\<close> list), and the merged result
  holds the baseline's endpoints, not the GraphQL value.
\<close>

theorem falsy_graphql_value_counterexample:
  "fst (extract_rsc_data session_env [endpoints_record] monitoring_client) =
     [(''provider'', PStr ''acme''), (''endpoints'', PList [PStr ''a''])] \<and>
   fst (extract_graphql_data session_env [graphql_record_of (PStr ''2'')] monitoring_client) =
     [(''name'', PStr ''Weather API''), (''endpoints'', PList [])] \<and>
   merge_into (combine [(''provider'', PStr ''acme''), (''endpoints'', PList [PStr ''a''])]
                       [(''name'', PStr ''Weather API''), (''endpoints'', PList [])])
              static_endpoints =
     Inr (PDict [(''endpoints'', PList [PStr ''old'']), (''provider'', PStr ''acme''),
                 (''name'', PStr ''Weather API'')]) \<and>
   PList [PStr ''old''] \<noteq> PList [] \<and> \<not> py_eq (PList [PStr ''old'']) (PList [])"
proof -
  have "merge_into (combine [(''provider'', PStr ''acme''), (''endpoints'', PList [PStr ''a''])]
                       [(''name'', PStr ''Weather API''), (''endpoints'', PList [])])
              static_endpoints =
     Inr (PDict [(''endpoints'', PList [PStr ''old'']), (''provider'', PStr ''acme''),
                 (''name'', PStr ''Weather API'')])"
    by (simp add: combine_def py_update_def merge_enhanced_def merge_step_def dict_get_def
          static_endpoints_def)
  with rsc_run gql_run show ?thesis by simp
qed

theorem merge_overwrites_truthy_changed_witness:
  "distinct (map fst [(''description'', PStr ''from payload''), (''provider'', PStr ''acme'')]) \<and>
   distinct (map fst [(''description'', PStr ''from graphql''), (''rating'', PFloat 0)]) \<and>
   map_of (merge_enhanced
            (combine [(''description'', PStr ''from payload''), (''provider'', PStr ''acme'')]
                     [(''description'', PStr ''from graphql''), (''rating'', PFloat 0)])
            [(''description'', PStr ''static''), (''rating'', PInt 4)]) ''description'' =
     Some (PStr ''from graphql'') \<and>
   map_of (merge_enhanced
            (combine [(''description'', PStr ''from payload''), (''provider'', PStr ''acme'')]
                     [(''description'', PStr ''from graphql''), (''rating'', PFloat 0)])
            [(''description'', PStr ''static''), (''rating'', PInt 4)]) ''rating'' =
     Some (PInt 4)"
proof -
  let ?rsc = "[(''description'', PStr ''from payload''), (''provider'', PStr ''acme'')]"
  let ?gql = "[(''description'', PStr ''from graphql''), (''rating'', PFloat 0)]"
  let ?base = "[(''description'', PStr ''static''), (''rating'', PInt 4)]"
  have a: "distinct (map fst ?rsc)" by simp
  have b: "distinct (map fst ?gql)" by simp
  note t = merge_overwrites_truthy_changed [OF a b, of ?base]
  from t [of "''description''" "PStr ''from graphql''"] t [of "''rating''" "PFloat 0"] a b
  show ?thesis by (simp add: dict_get_def)
qed

end
